theory Spec2Isabelle
  imports Complex_Main
begin

section \<open>Data model\<close>

text \<open>
  The script \<^verbatim>\<open>AB_Testing.py\<close> works on pandas data frames and hands columns to four
  routines of \<^verbatim>\<open>scipy.stats\<close>. A data frame is modelled with its index labels, its column
  names and its rows; a row maps a column name to a cell, and a column name without a cell
  is a missing value (pandas' NaN). A floating-point number is idealised as a real, and a
  floating-point result that may be NaN as a \<open>real option\<close> with \<open>None\<close> for NaN.
\<close>

datatype error = KeyError | TypeError | ValueError

datatype cell = Num real | Str string

type_synonym row = "string \<rightharpoonup> cell"

type_synonym series = "cell option list"

record dataframe =
  index :: "nat list"
  columns :: "string list"
  rows :: "row list"

text \<open>\<^verbatim>\<open>dataframe[variable]\<close>: the column, or KeyError when there is no such column.\<close>

definition getitem :: "dataframe \<Rightarrow> string \<Rightarrow> error + series" where
  "getitem dataframe variable =
     (if variable \<in> set (columns dataframe)
      then Inr (map (\<lambda>r. r variable) (rows dataframe))
      else Inl KeyError)"

text \<open>
  Arithmetic on a column (a quantile, an order comparison with a number) raises TypeError
  when the column holds a string; otherwise it sees the numbers, with NaN for a missing
  cell.
\<close>

fun is_str :: "cell option \<Rightarrow> bool" where
  "is_str (Some (Str s)) = True"
| "is_str c = False"

fun num_of :: "cell option \<Rightarrow> real option" where
  "num_of (Some (Num x)) = Some x"
| "num_of c = None"

definition numeric :: "series \<Rightarrow> error + real option list" where
  "numeric s = (if list_ex is_str s then Inl TypeError else Inr (map num_of s))"

fun dropna :: "real option list \<Rightarrow> real list" where
  "dropna [] = []"
| "dropna (None # vs) = dropna vs"
| "dropna (Some x # vs) = x # dropna vs"

text \<open>
  \<^verbatim>\<open>Series.quantile(q)\<close> with the default linear interpolation: NaN is skipped, the
  values are sorted, the position \<open>q * (n - 1)\<close> is split into its integer part and its
  fraction, and the result lies that fraction of the way from the value at the integer
  position to the next one. An empty column gives NaN.
\<close>

definition interpolate :: "real list \<Rightarrow> real \<Rightarrow> real" where
  "interpolate xs h =
     (let lo = nat \<lfloor>h\<rfloor>;
          hi = min (lo + 1) (length xs - 1);
          g = h - real lo
      in xs ! lo + (xs ! hi - xs ! lo) * g)"

definition quantile :: "real option list \<Rightarrow> real \<Rightarrow> real option" where
  "quantile vs q =
     (let xs = sort (dropna vs); n = length xs
      in if n = 0 then None else Some (interpolate xs (q * real (n - 1))))"

text \<open>Floating-point arithmetic and comparison, NaN-aware.\<close>

fun fadd :: "real option \<Rightarrow> real option \<Rightarrow> real option" where
  "fadd (Some x) (Some y) = Some (x + y)"
| "fadd a b = None"

fun fsub :: "real option \<Rightarrow> real option \<Rightarrow> real option" where
  "fsub (Some x) (Some y) = Some (x - y)"
| "fsub a b = None"

fun fmul :: "real option \<Rightarrow> real option \<Rightarrow> real option" where
  "fmul (Some x) (Some y) = Some (x * y)"
| "fmul a b = None"

fun gt :: "real option \<Rightarrow> real option \<Rightarrow> bool" where
  "gt (Some x) (Some y) = (x > y)"
| "gt a b = False"

fun lt :: "real option \<Rightarrow> real option \<Rightarrow> bool" where
  "lt (Some x) (Some y) = (x < y)"
| "lt a b = False"

section \<open>Task 1, step 3: checking and suppressing outliers\<close>

definition outlier_thresholds ::
    "dataframe \<Rightarrow> string \<Rightarrow> error + (real option \<times> real option)" where
  "outlier_thresholds dataframe variable =
     (case getitem dataframe variable of
        Inl e \<Rightarrow> Inl e
      | Inr s \<Rightarrow>
          (case numeric s of
             Inl e \<Rightarrow> Inl e
           | Inr vs \<Rightarrow>
               (let quartile1 = quantile vs (1 / 100);
                    quartile3 = quantile vs (99 / 100);
                    interquantile_range = fsub quartile3 quartile1;
                    up_limit = fadd quartile3 (fmul (Some (3 / 2)) interquantile_range);
                    low_limit = fsub quartile1 (fmul (Some (3 / 2)) interquantile_range)
                in Inr (low_limit, up_limit))))"

text \<open>
  \<^verbatim>\<open>dataframe.loc[(dataframe[variable] < low_limit), variable] = low_limit\<close>: the cell
  of the column is overwritten in every row where the comparison holds. A comparison with
  NaN, on either side, is false.
\<close>

definition set_if_below :: "string \<Rightarrow> real option \<Rightarrow> row \<Rightarrow> row" where
  "set_if_below variable low_limit r =
     (if lt (num_of (r variable)) low_limit
      then (case low_limit of Some l \<Rightarrow> r(variable \<mapsto> Num l) | None \<Rightarrow> r)
      else r)"

definition loc_set_below :: "dataframe \<Rightarrow> string \<Rightarrow> real option \<Rightarrow> error + dataframe" where
  "loc_set_below dataframe variable low_limit =
     (case getitem dataframe variable of
        Inl e \<Rightarrow> Inl e
      | Inr s \<Rightarrow>
          (case numeric s of
             Inl e \<Rightarrow> Inl e
           | Inr vs \<Rightarrow>
               Inr (dataframe\<lparr>rows := map (set_if_below variable low_limit) (rows dataframe)\<rparr>)))"

text \<open>
  \<^verbatim>\<open>dataframe.loc[(dataframe[variable] > up_limit), variable] = up_limit\<close>, on the
  frame the first assignment has left.
\<close>

definition set_if_above :: "string \<Rightarrow> real option \<Rightarrow> row \<Rightarrow> row" where
  "set_if_above variable up_limit r =
     (if gt (num_of (r variable)) up_limit
      then (case up_limit of Some u \<Rightarrow> r(variable \<mapsto> Num u) | None \<Rightarrow> r)
      else r)"

definition loc_set_above :: "dataframe \<Rightarrow> string \<Rightarrow> real option \<Rightarrow> error + dataframe" where
  "loc_set_above dataframe variable up_limit =
     (case getitem dataframe variable of
        Inl e \<Rightarrow> Inl e
      | Inr s \<Rightarrow>
          (case numeric s of
             Inl e \<Rightarrow> Inl e
           | Inr vs \<Rightarrow>
               Inr (dataframe\<lparr>rows := map (set_if_above variable up_limit) (rows dataframe)\<rparr>)))"

text \<open>The data frame is changed in place; the model returns the changed frame.\<close>

definition replace_with_thresholds :: "dataframe \<Rightarrow> string \<Rightarrow> error + dataframe" where
  "replace_with_thresholds dataframe variable =
     (case outlier_thresholds dataframe variable of
        Inl e \<Rightarrow> Inl e
      | Inr (low_limit, up_limit) \<Rightarrow>
          (case loc_set_below dataframe variable low_limit of
             Inl e \<Rightarrow> Inl e
           | Inr dataframe1 \<Rightarrow> loc_set_above dataframe1 variable up_limit))"

section \<open>Task 1, step 4: labelling and concatenating\<close>

text \<open>\<^verbatim>\<open>dataframe[name] = value\<close>: every row gets the value in that column.\<close>

definition setitem :: "dataframe \<Rightarrow> string \<Rightarrow> cell \<Rightarrow> dataframe" where
  "setitem dataframe name v =
     dataframe\<lparr>columns := (if name \<in> set (columns dataframe) then columns dataframe
                           else columns dataframe @ [name]),
               rows := map (\<lambda>r. r(name \<mapsto> v)) (rows dataframe)\<rparr>"

text \<open>
  \<^verbatim>\<open>pd.concat([a, b], axis=0, ignore_index=True)\<close>: the rows of \<open>a\<close>, then the rows
  of \<open>b\<close>, under the union of the columns, with a fresh index.
\<close>

definition pd_concat :: "dataframe \<Rightarrow> dataframe \<Rightarrow> dataframe" where
  "pd_concat a b =
     \<lparr>index = [0 ..< length (rows a) + length (rows b)],
      columns = columns a @ filter (\<lambda>c. c \<notin> set (columns a)) (columns b),
      rows = rows a @ rows b\<rparr>"

text \<open>
  Lines 89 to 102 of the script: both groups are capped on \<^verbatim>\<open>Purchase\<close>, labelled
  and concatenated into \<^verbatim>\<open>df\<close>.
\<close>

definition combined :: "dataframe \<Rightarrow> dataframe \<Rightarrow> error + dataframe" where
  "combined dfc dft =
     (case replace_with_thresholds dfc ''Purchase'' of
        Inl e \<Rightarrow> Inl e
      | Inr dfc1 \<Rightarrow>
          (case replace_with_thresholds dft ''Purchase'' of
             Inl e \<Rightarrow> Inl e
           | Inr dft1 \<Rightarrow>
               Inr (pd_concat (setitem dfc1 ''Group'' (Str ''C''))
                              (setitem dft1 ''Group'' (Str ''T'')))))"

section \<open>Task 2: the A/B test\<close>

text \<open>
  The four routines of \<^verbatim>\<open>scipy.stats\<close> are parameters of the model: each returns a
  pair (statistic, p-value) or raises.
\<close>

type_synonym test_result = "error + (real option \<times> real option)"

record scipy_stats =
  shapiro :: "series \<Rightarrow> test_result"
  levene :: "series \<Rightarrow> series \<Rightarrow> test_result"
  ttest_ind :: "series \<Rightarrow> series \<Rightarrow> bool \<Rightarrow> test_result"
  mannwhitneyu :: "series \<Rightarrow> series \<Rightarrow> test_result"

text \<open>
  What a run does, in order: the calls of the statistical routines with their arguments
  and the printed lines. An f-string line is its text and the number it formats.
\<close>

datatype event =
    Call_shapiro series
  | Call_levene series series
  | is_Call_ttest_ind: Call_ttest_ind (sample1: series) (sample2: series) (equal_var: bool)
  | is_Call_mannwhitneyu: Call_mannwhitneyu series series
  | Print string
  | Print_value string "real option"

type_synonym run = "event list \<times> error option"

definition alpha :: "real option" where
  "alpha = Some (5 / 100)"

text \<open>\<^verbatim>\<open>df.loc[df["Group"] == g, "Purchase"]\<close>\<close>

definition loc_group :: "dataframe \<Rightarrow> string \<Rightarrow> error + series" where
  "loc_group df g =
     (case getitem df ''Group'' of
        Inl e \<Rightarrow> Inl e
      | Inr s \<Rightarrow>
          (if ''Purchase'' \<in> set (columns df)
           then Inr (map (\<lambda>r. r ''Purchase'')
                         (filter (\<lambda>r. r ''Group'' = Some (Str g)) (rows df)))
           else Inl KeyError))"

text \<open>One statement after the other: an exception ends the run.\<close>

definition then_run :: "run \<Rightarrow> run \<Rightarrow> run" where
  "then_run a b = (case snd a of Some e \<Rightarrow> a | None \<Rightarrow> (fst a @ fst b, snd b))"

text \<open>Lines 121 to 133: the Shapiro-Wilk test of one group and its verdict.\<close>

definition normality :: "scipy_stats \<Rightarrow> dataframe \<Rightarrow> string \<Rightarrow> run" where
  "normality st df g =
     (case loc_group df g of
        Inl e \<Rightarrow> ([], Some e)
      | Inr xs \<Rightarrow>
          (case shapiro st xs of
             Inl e \<Rightarrow> ([Call_shapiro xs], Some e)
           | Inr (statistic, p_value) \<Rightarrow>
               ([Call_shapiro xs,
                 if gt p_value alpha then Print ''Sample looks normal!''
                 else Print ''Sample does not look normal!''], None)))"

text \<open>Lines 141 to 146: the Levene test and its verdict.\<close>

definition homogeneity :: "scipy_stats \<Rightarrow> dataframe \<Rightarrow> run" where
  "homogeneity st df =
     (case loc_group df ''C'' of
        Inl e \<Rightarrow> ([], Some e)
      | Inr xs \<Rightarrow>
          (case loc_group df ''T'' of
             Inl e \<Rightarrow> ([], Some e)
           | Inr ys \<Rightarrow>
               (case levene st xs ys of
                  Inl e \<Rightarrow> ([Call_levene xs ys], Some e)
                | Inr (statistic, p_value) \<Rightarrow>
                    ([Call_levene xs ys,
                      if gt p_value alpha then Print ''Variances are homogene!''
                      else Print ''Variances are not homogene!''], None))))"

text \<open>Lines 154 to 164: the comparison test and its interpretation.\<close>

definition hypothesis_testing :: "scipy_stats \<Rightarrow> dataframe \<Rightarrow> run" where
  "hypothesis_testing st df =
     (case loc_group df ''C'' of
        Inl e \<Rightarrow> ([], Some e)
      | Inr xs \<Rightarrow>
          (case loc_group df ''T'' of
             Inl e \<Rightarrow> ([], Some e)
           | Inr ys \<Rightarrow>
               (case ttest_ind st xs ys True of
                  Inl e \<Rightarrow> ([Call_ttest_ind xs ys True], Some e)
                | Inr (test_stat, p_value) \<Rightarrow>
                    (if gt p_value alpha
                     then ([Call_ttest_ind xs ys True,
                            Print ''H0 can not be denied!'',
                            Print_value ''t statistic = '' test_stat,
                            Print_value ''p value = '' p_value], None)
                     else ([Call_ttest_ind xs ys True,
                            Print ''H0 can denied!'',
                            Print_value ''t statistic = '' test_stat,
                            Print_value ''p value = '' p_value], None)))))"

definition ab_test :: "scipy_stats \<Rightarrow> dataframe \<Rightarrow> run" where
  "ab_test st df =
     then_run (normality st df ''C'')
       (then_run (normality st df ''T'')
          (then_run (homogeneity st df) (hypothesis_testing st df)))"

text \<open>The script from line 89 on, for the two sheets it has loaded.\<close>

definition script :: "scipy_stats \<Rightarrow> dataframe \<Rightarrow> dataframe \<Rightarrow> run" where
  "script st dfc dft =
     (case combined dfc dft of
        Inl e \<Rightarrow> ([], Some e)
      | Inr df \<Rightarrow> ab_test st df)"

section \<open>Notions used in the statements\<close>

text \<open>The numbers of a field, row by row, with NaN for a missing cell.\<close>

definition field_values :: "dataframe \<Rightarrow> string \<Rightarrow> real option list" where
  "field_values df v = map (\<lambda>r. num_of (r v)) (rows df)"

text \<open>A sheet with the single column \<^verbatim>\<open>Purchase\<close> holding the given numbers.\<close>

definition purchase_frame :: "real list \<Rightarrow> dataframe" where
  "purchase_frame xs =
     \<lparr>index = [0 ..< length xs], columns = [''Purchase''],
      rows = map (\<lambda>x. [''Purchase'' \<mapsto> Num x]) xs\<rparr>"

text \<open>
  Statistical routines that return one fixed (statistic, p-value) pair each, whatever
  the samples: the Shapiro-Wilk pair, the Levene pair, the t-test pair and the
  Mann-Whitney pair.
\<close>

definition fixed_stats ::
    "real \<times> real \<Rightarrow> real \<times> real \<Rightarrow> real \<times> real \<Rightarrow> real \<times> real \<Rightarrow> scipy_stats" where
  "fixed_stats sw lv tt mw =
     \<lparr>shapiro = (\<lambda>xs. Inr (Some (fst sw), Some (snd sw))),
      levene = (\<lambda>xs ys. Inr (Some (fst lv), Some (snd lv))),
      ttest_ind = (\<lambda>xs ys b. Inr (Some (fst tt), Some (snd tt))),
      mannwhitneyu = (\<lambda>xs ys. Inr (Some (fst mw), Some (snd mw)))\<rparr>"

section \<open>Quantiles\<close>

text \<open>
  On a sorted list the interpolated value does not decrease with the position, so the
  quantile does not decrease with \<open>q\<close>.
\<close>

lemma interpolate_mono:
  fixes xs :: "real list"
  assumes srt: "sorted xs" and ne: "xs \<noteq> []"
    and h0: "0 \<le> h" and hh: "h \<le> h'" and hn: "h' \<le> real (length xs - 1)"
  shows "interpolate xs h \<le> interpolate xs h'"
proof -
  define n where "n = length xs"
  define i where "i = nat \<lfloor>h\<rfloor>"
  define j where "j = nat \<lfloor>h'\<rfloor>"
  define g where "g = h - real i"
  define g' where "g' = h' - real j"
  have npos: "0 < n" using ne by (simp add: n_def)
  have ij: "i \<le> j" unfolding i_def j_def using hh by (simp add: floor_mono nat_mono)
  have ri: "real i = of_int \<lfloor>h\<rfloor>" unfolding i_def using h0 by simp
  have rj: "real j = of_int \<lfloor>h'\<rfloor>" unfolding j_def using h0 hh by simp
  have g_bounds: "0 \<le> g" "g < 1" unfolding g_def ri by linarith+
  have g'_bounds: "0 \<le> g'" "g' < 1" unfolding g'_def rj by linarith+
  have "real j \<le> h'" unfolding rj by simp
  then have "real j \<le> real (n - 1)" using hn by (simp add: n_def)
  then have jn: "j \<le> n - 1" by simp
  have nth_le: "\<And>a b. a \<le> b \<Longrightarrow> b \<le> n - 1 \<Longrightarrow> xs ! a \<le> xs ! b"
  proof -
    fix a b :: nat assume "a \<le> b" "b \<le> n - 1"
    then have "b < n" using npos by linarith
    then have "b < length xs" by (simp only: n_def)
    with srt \<open>a \<le> b\<close> show "xs ! a \<le> xs ! b" by (rule sorted_nth_mono)
  qed
  have di: "xs ! i \<le> xs ! min (i + 1) (n - 1)"
    using ij jn by (intro nth_le) auto
  have dj: "xs ! j \<le> xs ! min (j + 1) (n - 1)"
    using jn by (intro nth_le) auto
  have goal: "xs ! i + (xs ! min (i + 1) (n - 1) - xs ! i) * g
       \<le> xs ! j + (xs ! min (j + 1) (n - 1) - xs ! j) * g'"
  proof (cases "i = j")
    case True
    have "g \<le> g'" unfolding g_def g'_def True using hh by simp
    then have "(xs ! min (j + 1) (n - 1) - xs ! j) * g \<le> (xs ! min (j + 1) (n - 1) - xs ! j) * g'"
      using dj by (intro mult_left_mono) auto
    then show ?thesis using True by simp
  next
    case False
    then have lt: "i + 1 \<le> j" using ij by simp
    then have hi: "min (i + 1) (n - 1) = i + 1" using jn by simp
    have "(xs ! (i + 1) - xs ! i) * g \<le> (xs ! (i + 1) - xs ! i) * 1"
      using di g_bounds unfolding hi by (intro mult_left_mono) auto
    then have "xs ! i + (xs ! (i + 1) - xs ! i) * g \<le> xs ! (i + 1)" by simp
    also have "\<dots> \<le> xs ! j" using lt jn by (intro nth_le) auto
    also have "\<dots> \<le> xs ! j + (xs ! min (j + 1) (n - 1) - xs ! j) * g'"
      using dj g'_bounds by simp
    finally show ?thesis unfolding hi .
  qed
  show ?thesis using goal unfolding interpolate_def Let_def i_def j_def g_def g'_def n_def .
qed

lemma sort_Nil_iff: "sort xs = [] \<longleftrightarrow> xs = []"
  by (metis length_sort length_0_conv)

lemma quantile_None_iff: "quantile vs q = None \<longleftrightarrow> dropna vs = []"
  by (simp add: quantile_def Let_def sort_Nil_iff)

lemma quantile_mono:
  assumes "0 \<le> p" "p \<le> q" "q \<le> 1" "quantile vs p = Some a" "quantile vs q = Some b"
  shows "a \<le> b"
proof -
  define xs where "xs = sort (dropna vs)"
  have ne: "xs \<noteq> []" using assms(4) by (auto simp: quantile_def Let_def xs_def split: if_splits)
  have srt: "sorted xs" by (simp add: xs_def)
  have n1: "0 \<le> real (length xs - 1)" by simp
  have a: "a = interpolate xs (p * real (length xs - 1))"
    using assms(4) ne by (simp add: quantile_def Let_def xs_def split: if_splits)
  have b: "b = interpolate xs (q * real (length xs - 1))"
    using assms(5) ne by (simp add: quantile_def Let_def xs_def split: if_splits)
  have 1: "0 \<le> p * real (length xs - 1)" using assms(1) n1 by (intro mult_nonneg_nonneg)
  have 2: "p * real (length xs - 1) \<le> q * real (length xs - 1)" using assms(2) n1 by (intro mult_right_mono)
  have 3: "q * real (length xs - 1) \<le> real (length xs - 1)" using assms(3) n1 mult_right_mono[of q 1 "real (length xs - 1)"] by simp
  show ?thesis unfolding a b by (rule interpolate_mono[OF srt ne 1 2 3])
qed

section \<open>What \<open>replace_with_thresholds\<close> computes\<close>

lemma numeric_Inr_iff: "numeric s = Inr vs \<longleftrightarrow> \<not> list_ex is_str s \<and> vs = map num_of s"
  by (auto simp: numeric_def)

lemma is_str_set_if_below: "is_str (set_if_below v low r v) = is_str (r v)"
  by (cases low; cases "r v" rule: num_of.cases) (auto simp: set_if_below_def)

lemma is_str_set_if_above: "is_str (set_if_above v up r v) = is_str (r v)"
  by (cases up; cases "r v" rule: num_of.cases) (auto simp: set_if_above_def)

lemma outlier_thresholds_eq:
  "outlier_thresholds df v =
     (if v \<notin> set (columns df) then Inl KeyError
      else if list_ex is_str (map (\<lambda>r. r v) (rows df)) then Inl TypeError
      else Inr (fsub (quantile (map (\<lambda>r. num_of (r v)) (rows df)) (1 / 100))
                  (fmul (Some (3 / 2))
                     (fsub (quantile (map (\<lambda>r. num_of (r v)) (rows df)) (99 / 100))
                           (quantile (map (\<lambda>r. num_of (r v)) (rows df)) (1 / 100)))),
                fadd (quantile (map (\<lambda>r. num_of (r v)) (rows df)) (99 / 100))
                  (fmul (Some (3 / 2))
                     (fsub (quantile (map (\<lambda>r. num_of (r v)) (rows df)) (99 / 100))
                           (quantile (map (\<lambda>r. num_of (r v)) (rows df)) (1 / 100))))))"
  by (simp add: outlier_thresholds_def getitem_def numeric_def Let_def comp_def)

lemma replace_with_thresholds_eq:
  "replace_with_thresholds df v =
     (case outlier_thresholds df v of
        Inl e \<Rightarrow> Inl e
      | Inr (low, up) \<Rightarrow>
          Inr (df\<lparr>rows := map (\<lambda>r. set_if_above v up (set_if_below v low r)) (rows df)\<rparr>))"
  by (auto simp: replace_with_thresholds_def outlier_thresholds_eq loc_set_below_def loc_set_above_def
      getitem_def numeric_def list_ex_iff is_str_set_if_below comp_def
      split: sum.splits prod.splits)

lemma dropna_nonempty: "Some y \<in> set vs \<Longrightarrow> dropna vs \<noteq> []"
  by (induction vs rule: dropna.induct) auto

lemma set_if_below_other: "c \<noteq> v \<Longrightarrow> set_if_below v low r c = r c"
  by (cases low) (auto simp: set_if_below_def)

lemma set_if_above_other: "c \<noteq> v \<Longrightarrow> set_if_above v up r c = r c"
  by (cases up) (auto simp: set_if_above_def)

lemma set_if_below_None: "num_of (r v) = None \<Longrightarrow> set_if_below v low r = r"
  by (simp add: set_if_below_def)

lemma set_if_above_None: "num_of (r v) = None \<Longrightarrow> set_if_above v up r = r"
  by (simp add: set_if_above_def)

lemma set_if_below_keep: "\<not> lt (num_of (r v)) low \<Longrightarrow> set_if_below v low r = r"
  by (simp add: set_if_below_def)

lemma set_if_above_keep: "\<not> gt (num_of (r v)) up \<Longrightarrow> set_if_above v up r = r"
  by (simp add: set_if_above_def)

lemma capped_in_range:
  assumes "set_if_above v (Some u) (set_if_below v (Some l) r) v = Some (Num x)" and "l \<le> u"
  shows "l \<le> x \<and> x \<le> u"
  using assms
  by (cases "r v" rule: num_of.cases) (auto simp: set_if_below_def set_if_above_def split: if_splits)

lemma thresholds_of_values:
  assumes ok: "outlier_thresholds df v = Inr (low, up)" and y: "Some y \<in> set (field_values df v)"
  shows "\<exists>Q1 Q3. quantile (field_values df v) (1 / 100) = Some Q1 \<and>
           quantile (field_values df v) (99 / 100) = Some Q3 \<and> Q1 \<le> Q3 \<and>
           low = Some (Q1 - 3 / 2 * (Q3 - Q1)) \<and> up = Some (Q3 + 3 / 2 * (Q3 - Q1))"
proof -
  have ne: "dropna (field_values df v) \<noteq> []" using y by (rule dropna_nonempty)
  obtain Q1 where q1: "quantile (field_values df v) (1 / 100) = Some Q1"
    using ne quantile_None_iff[of "field_values df v" "1 / 100"] by (cases "quantile (field_values df v) (1 / 100)") auto
  obtain Q3 where q3: "quantile (field_values df v) (99 / 100) = Some Q3"
    using ne quantile_None_iff[of "field_values df v" "99 / 100"] by (cases "quantile (field_values df v) (99 / 100)") auto
  have le: "Q1 \<le> Q3" by (rule quantile_mono[OF _ _ _ q1 q3]) simp_all
  have "low = Some (Q1 - 3 / 2 * (Q3 - Q1)) \<and> up = Some (Q3 + 3 / 2 * (Q3 - Q1))"
    using ok q1 q3 by (simp add: outlier_thresholds_eq field_values_def split: if_splits)
  with q1 q3 le show ?thesis by blast
qed

lemma replace_with_thresholds_rows:
  assumes "replace_with_thresholds df v = Inr df'"
  shows "\<exists>low up. outlier_thresholds df v = Inr (low, up) \<and>
           df' = df\<lparr>rows := map (\<lambda>r. set_if_above v up (set_if_below v low r)) (rows df)\<rparr>"
  using assms by (auto simp: replace_with_thresholds_eq split: sum.splits prod.splits)

lemma capped_value_bounds:
  assumes ok: "replace_with_thresholds df v = Inr df'"
    and r: "r \<in> set (rows df')" and x: "r v = Some (Num x)"
  shows "\<exists>Q1 Q3. quantile (field_values df v) (1 / 100) = Some Q1 \<and>
           quantile (field_values df v) (99 / 100) = Some Q3 \<and>
           outlier_thresholds df v = Inr (Some (Q1 - 3 / 2 * (Q3 - Q1)), Some (Q3 + 3 / 2 * (Q3 - Q1))) \<and>
           Q1 - 3 / 2 * (Q3 - Q1) \<le> x \<and> x \<le> Q3 + 3 / 2 * (Q3 - Q1)"
proof -
  obtain low up where th: "outlier_thresholds df v = Inr (low, up)"
    and df': "df' = df\<lparr>rows := map (\<lambda>r. set_if_above v up (set_if_below v low r)) (rows df)\<rparr>"
    using replace_with_thresholds_rows[OF ok] by blast
  obtain r0 where r0: "r0 \<in> set (rows df)" and rr: "r = set_if_above v up (set_if_below v low r0)"
    using r df' by auto
  have "num_of (r0 v) \<noteq> None"
  proof
    assume n: "num_of (r0 v) = None"
    then have "r = r0" using rr by (simp add: set_if_below_None set_if_above_None)
    with n x show False by simp
  qed
  then obtain y where y: "num_of (r0 v) = Some y" by auto
  then have "Some y \<in> set (field_values df v)" using r0 by (force simp: field_values_def)
  from thresholds_of_values[OF th this] obtain Q1 Q3 where
    q: "quantile (field_values df v) (1 / 100) = Some Q1" "quantile (field_values df v) (99 / 100) = Some Q3"
    and le: "Q1 \<le> Q3" and lu: "low = Some (Q1 - 3 / 2 * (Q3 - Q1))" "up = Some (Q3 + 3 / 2 * (Q3 - Q1))" by blast
  have "3 / 2 * (Q3 - Q1) \<ge> 0" using le by simp
  then have "Q1 - 3 / 2 * (Q3 - Q1) \<le> Q3 + 3 / 2 * (Q3 - Q1)" using le by linarith
  moreover have "set_if_above v (Some (Q3 + 3 / 2 * (Q3 - Q1)))
      (set_if_below v (Some (Q1 - 3 / 2 * (Q3 - Q1))) r0) v = Some (Num x)"
    using x rr lu by simp
  ultimately have "Q1 - 3 / 2 * (Q3 - Q1) \<le> x \<and> x \<le> Q3 + 3 / 2 * (Q3 - Q1)"
    by (rule capped_in_range[rotated])
  with q th lu show ?thesis by auto
qed

section \<open>Evaluating the capper on a sheet of numbers\<close>

lemma dropna_map_Some: "dropna (map Some xs) = xs"
  by (induction xs) auto

lemma quantile_of_sorted:
  assumes "dropna vs = xs" "sorted xs" "xs \<noteq> []"
  shows "quantile vs q = Some (interpolate xs (q * real (length xs - 1)))"
  using assms by (simp add: quantile_def Let_def sorted_sort_id)

lemma field_values_purchase_frame: "field_values (purchase_frame xs) ''Purchase'' = map Some xs"
  by (simp add: field_values_def purchase_frame_def comp_def)

lemma replace_with_thresholds_purchase_frame:
  assumes "quantile (map Some xs) (1 / 100) = Some Q1" "quantile (map Some xs) (99 / 100) = Some Q3"
  shows "replace_with_thresholds (purchase_frame xs) ''Purchase'' =
         Inr (purchase_frame (map (\<lambda>x. min (max x (Q1 - 3 / 2 * (Q3 - Q1))) (Q3 + 3 / 2 * (Q3 - Q1))) xs))"
  using assms
  by (simp add: replace_with_thresholds_eq outlier_thresholds_eq purchase_frame_def comp_def
      list_ex_iff set_if_below_def set_if_above_def min_def max_def)

lemma replace_with_thresholds_sorted_frame:
  assumes "sorted xs" "xs \<noteq> []"
  shows "replace_with_thresholds (purchase_frame xs) ''Purchase'' =
         (let Q1 = interpolate xs (1 / 100 * real (length xs - 1));
              Q3 = interpolate xs (99 / 100 * real (length xs - 1))
          in Inr (purchase_frame
                    (map (\<lambda>x. min (max x (Q1 - 3 / 2 * (Q3 - Q1))) (Q3 + 3 / 2 * (Q3 - Q1))) xs)))"
  unfolding Let_def
  by (rule replace_with_thresholds_purchase_frame)
     (simp_all add: quantile_of_sorted[OF dropna_map_Some assms])

lemma outlier_thresholds_sorted_frame:
  assumes "sorted xs" "xs \<noteq> []"
  shows "outlier_thresholds (purchase_frame xs) ''Purchase'' =
         (let Q1 = interpolate xs (1 / 100 * real (length xs - 1));
              Q3 = interpolate xs (99 / 100 * real (length xs - 1))
          in Inr (Some (Q1 - 3 / 2 * (Q3 - Q1)), Some (Q3 + 3 / 2 * (Q3 - Q1))))"
  using quantile_of_sorted[OF dropna_map_Some assms]
  by (simp add: outlier_thresholds_eq purchase_frame_def comp_def list_ex_iff Let_def)

lemma purchase_frame_inject: "purchase_frame xs = purchase_frame ys \<longleftrightarrow> xs = ys"
proof
  assume "purchase_frame xs = purchase_frame ys"
  then have "map (\<lambda>x. [''Purchase'' \<mapsto> Num x]) xs = map (\<lambda>x. [''Purchase'' \<mapsto> Num x]) ys"
    by (simp add: purchase_frame_def)
  moreover have "inj (\<lambda>x::real. [''Purchase'' \<mapsto> Num x])"
    by (rule injI) (auto dest: map_upd_eqD1)
  ultimately show "xs = ys" by (simp add: inj_map_eq_map)
qed simp

section \<open>Helper facts about a run\<close>

lemma interpolate_eval:
  "interpolate xs h =
     xs ! nat \<lfloor>h\<rfloor> +
     (xs ! min (nat \<lfloor>h\<rfloor> + 1) (length xs - 1) - xs ! nat \<lfloor>h\<rfloor>) * (h - real (nat \<lfloor>h\<rfloor>))"
  by (simp add: interpolate_def Let_def)

lemmas run_defs =
  ab_test_def then_run_def normality_def homogeneity_def hypothesis_testing_def

lemma no_mannwhitneyu_ab_test: "\<not> list_ex is_Call_mannwhitneyu (fst (ab_test st df))"
  by (auto simp: run_defs split: sum.splits prod.splits option.splits if_splits)

lemma ttest_flag_ab_test:
  "e \<in> set (fst (ab_test st df)) \<Longrightarrow> is_Call_ttest_ind e \<Longrightarrow> equal_var e"
  by (auto simp: run_defs split: sum.splits prod.splits option.splits if_splits)

lemma ab_test_reaches_ttest:
  assumes "snd (normality st df ''C'') = None" and "snd (normality st df ''T'') = None"
    and "snd (homogeneity st df) = None"
  shows "\<exists>xs ys. loc_group df ''C'' = Inr xs \<and> loc_group df ''T'' = Inr ys \<and>
           Call_ttest_ind xs ys True \<in> set (fst (ab_test st df))"
  using assms
  by (auto simp: run_defs split: sum.splits prod.splits option.splits if_splits)

lemma capped_cell:
  assumes "r v = Some (Num y)" and "l \<le> u"
  shows "set_if_above v (Some u) (set_if_below v (Some l) r) v =
           Some (Num (if y < l then l else if u < y then u else y))"
  using assms by (simp add: set_if_below_def set_if_above_def)

lemma replace_with_thresholds_length:
  "replace_with_thresholds df v = Inr df' \<Longrightarrow> length (rows df') = length (rows df)"
  by (auto dest: replace_with_thresholds_rows)

section \<open>The claims\<close>

subsection \<open>Selection of the comparison test\<close>

text \<open>
  C1, as amended. The claim says that the two Shapiro-Wilk p-values choose between the
  t-test and the Mann-Whitney U test. The script has no such choice: no run calls
  \<^verbatim>\<open>mannwhitneyu\<close>, and every run in which the two normality steps and the
  homogeneity step have completed calls \<^verbatim>\<open>ttest_ind\<close> on the Purchase values of
  group C and of group T, whatever \<^verbatim>\<open>shapiro\<close> returned and also when that call then
  raises.
\<close>

theorem comparison_test_is_always_ttest:
  "\<not> list_ex is_Call_mannwhitneyu (fst (script st dfc dft)) \<and>
   (\<forall>df. combined dfc dft = Inr df \<and>
         snd (normality st df ''C'') = None \<and> snd (normality st df ''T'') = None \<and>
         snd (homogeneity st df) = None \<longrightarrow>
      (\<exists>xs ys. loc_group df ''C'' = Inr xs \<and> loc_group df ''T'' = Inr ys \<and>
         Call_ttest_ind xs ys True \<in> set (fst (script st dfc dft))))"
proof (cases "combined dfc dft")
  case (Inl e)
  then show ?thesis by (simp add: script_def)
next
  case (Inr df)
  then have s: "script st dfc dft = ab_test st df" by (simp add: script_def)
  show ?thesis
    unfolding s using no_mannwhitneyu_ab_test[of st df] ab_test_reaches_ttest[of st df] Inr
    by auto
qed

text \<open>
  The claim fails where a group is not normal: with Shapiro-Wilk p-values of 0.01 the run
  prints that neither sample looks normal and then calls the t-test.
\<close>

theorem non_normal_groups_still_get_ttest:
  "script (fixed_stats (9 / 10, 1 / 100) (1, 1 / 2) (- 1, 349 / 1000) (2, 1 / 5))
      (purchase_frame [1, 2, 3, 4, 100]) (purchase_frame [2, 3, 4, 5, 6]) =
    ([Call_shapiro [Some (Num 1), Some (Num 2), Some (Num 3), Some (Num 4), Some (Num 100)],
      Print ''Sample does not look normal!'',
      Call_shapiro [Some (Num 2), Some (Num 3), Some (Num 4), Some (Num 5), Some (Num 6)],
      Print ''Sample does not look normal!'',
      Call_levene [Some (Num 1), Some (Num 2), Some (Num 3), Some (Num 4), Some (Num 100)]
                  [Some (Num 2), Some (Num 3), Some (Num 4), Some (Num 5), Some (Num 6)],
      Print ''Variances are homogene!'',
      Call_ttest_ind [Some (Num 1), Some (Num 2), Some (Num 3), Some (Num 4), Some (Num 100)]
                     [Some (Num 2), Some (Num 3), Some (Num 4), Some (Num 5), Some (Num 6)] True,
      Print ''H0 can not be denied!'',
      Print_value ''t statistic = '' (Some (- 1)),
      Print_value ''p value = '' (Some (349 / 1000))], None)"
  apply (simp add: script_def combined_def)
  apply (subst replace_with_thresholds_sorted_frame, simp, simp)
  apply (subst replace_with_thresholds_sorted_frame, simp, simp)
  apply (simp add: interpolate_eval nth_Cons' purchase_frame_def setitem_def pd_concat_def
      run_defs loc_group_def getitem_def alpha_def fixed_stats_def)
  done

theorem comparison_test_is_always_ttest_witness:
  "combined (purchase_frame [1, 2, 9]) (purchase_frame [3, 4])
     = Inr (pd_concat (setitem (purchase_frame [1, 2, 9]) ''Group'' (Str ''C''))
                      (setitem (purchase_frame [3, 4]) ''Group'' (Str ''T''))) \<and>
   snd (normality
          ((fixed_stats (9 / 10, 1 / 50) (1, 1 / 2) (2, 1 / 4) (2, 1 / 5))
             \<lparr>ttest_ind := \<lambda>xs ys b. Inl ValueError\<rparr>)
          (pd_concat (setitem (purchase_frame [1, 2, 9]) ''Group'' (Str ''C''))
                     (setitem (purchase_frame [3, 4]) ''Group'' (Str ''T''))) ''C'') = None \<and>
   snd (normality
          ((fixed_stats (9 / 10, 1 / 50) (1, 1 / 2) (2, 1 / 4) (2, 1 / 5))
             \<lparr>ttest_ind := \<lambda>xs ys b. Inl ValueError\<rparr>)
          (pd_concat (setitem (purchase_frame [1, 2, 9]) ''Group'' (Str ''C''))
                     (setitem (purchase_frame [3, 4]) ''Group'' (Str ''T''))) ''T'') = None \<and>
   snd (homogeneity
          ((fixed_stats (9 / 10, 1 / 50) (1, 1 / 2) (2, 1 / 4) (2, 1 / 5))
             \<lparr>ttest_ind := \<lambda>xs ys b. Inl ValueError\<rparr>)
          (pd_concat (setitem (purchase_frame [1, 2, 9]) ''Group'' (Str ''C''))
                     (setitem (purchase_frame [3, 4]) ''Group'' (Str ''T'')))) = None \<and>
   snd (script
          ((fixed_stats (9 / 10, 1 / 50) (1, 1 / 2) (2, 1 / 4) (2, 1 / 5))
             \<lparr>ttest_ind := \<lambda>xs ys b. Inl ValueError\<rparr>)
          (purchase_frame [1, 2, 9]) (purchase_frame [3, 4])) = Some ValueError \<and>
   \<not> list_ex is_Call_mannwhitneyu
        (fst (script
                ((fixed_stats (9 / 10, 1 / 50) (1, 1 / 2) (2, 1 / 4) (2, 1 / 5))
                   \<lparr>ttest_ind := \<lambda>xs ys b. Inl ValueError\<rparr>)
                (purchase_frame [1, 2, 9]) (purchase_frame [3, 4]))) \<and>
   (\<exists>xs ys.
      loc_group (pd_concat (setitem (purchase_frame [1, 2, 9]) ''Group'' (Str ''C''))
                           (setitem (purchase_frame [3, 4]) ''Group'' (Str ''T''))) ''C'' = Inr xs \<and>
      loc_group (pd_concat (setitem (purchase_frame [1, 2, 9]) ''Group'' (Str ''C''))
                           (setitem (purchase_frame [3, 4]) ''Group'' (Str ''T''))) ''T'' = Inr ys \<and>
      Call_ttest_ind xs ys True
        \<in> set (fst (script
                      ((fixed_stats (9 / 10, 1 / 50) (1, 1 / 2) (2, 1 / 4) (2, 1 / 5))
                         \<lparr>ttest_ind := \<lambda>xs ys b. Inl ValueError\<rparr>)
                      (purchase_frame [1, 2, 9]) (purchase_frame [3, 4]))))"
proof -
  let ?st = "(fixed_stats (9 / 10, 1 / 50) (1, 1 / 2) (2, 1 / 4) (2, 1 / 5))
               \<lparr>ttest_ind := \<lambda>xs ys b. Inl ValueError\<rparr>"
  let ?A = "purchase_frame [1, 2, 9]"
  let ?B = "purchase_frame [3, 4]"
  let ?DF = "pd_concat (setitem ?A ''Group'' (Str ''C'')) (setitem ?B ''Group'' (Str ''T''))"
  have run: "combined ?A ?B = Inr ?DF"
    apply (simp add: combined_def)
    apply (subst replace_with_thresholds_sorted_frame, simp, simp)
    apply (subst replace_with_thresholds_sorted_frame, simp, simp)
    apply (simp add: interpolate_eval nth_Cons')
    done
  have nc: "snd (normality ?st ?DF ''C'') = None"
    by (simp add: normality_def loc_group_def getitem_def pd_concat_def setitem_def
        purchase_frame_def fixed_stats_def)
  have nt: "snd (normality ?st ?DF ''T'') = None"
    by (simp add: normality_def loc_group_def getitem_def pd_concat_def setitem_def
        purchase_frame_def fixed_stats_def)
  have hm: "snd (homogeneity ?st ?DF) = None"
    by (simp add: homogeneity_def loc_group_def getitem_def pd_concat_def setitem_def
        purchase_frame_def fixed_stats_def)
  have err: "snd (script ?st ?A ?B) = Some ValueError"
    unfolding script_def run
    by (simp add: run_defs loc_group_def getitem_def pd_concat_def setitem_def
        purchase_frame_def fixed_stats_def alpha_def)
  have reach: "\<exists>xs ys. loc_group df ''C'' = Inr xs \<and> loc_group df ''T'' = Inr ys \<and>
         Call_ttest_ind xs ys True \<in> set (fst (script st dfc dft))"
    if "combined dfc dft = Inr df" "snd (normality st df ''C'') = None"
       "snd (normality st df ''T'') = None" "snd (homogeneity st df) = None"
    for st dfc dft df
    using comparison_test_is_always_ttest[of st dfc dft] that by blast
  have nomw: "\<not> list_ex is_Call_mannwhitneyu (fst (script st dfc dft))" for st dfc dft
    using comparison_test_is_always_ttest[of st dfc dft] by blast
  show ?thesis
    by (intro conjI) (fact run nc nt hm err nomw reach[OF run nc nt hm])+
qed

subsection \<open>The equal-variance flag\<close>

text \<open>
  C2, as amended. The claim says that the flag \<^verbatim>\<open>equal_var\<close> of the t-test follows
  the Levene p-value. The script passes the constant \<^verbatim>\<open>True\<close>: in every call of
  \<^verbatim>\<open>ttest_ind\<close> that a run makes, the flag is true, whatever \<^verbatim>\<open>levene\<close> returned.
\<close>

theorem ttest_equal_var_is_always_true:
  "e \<in> set (fst (script st dfc dft)) \<Longrightarrow> is_Call_ttest_ind e \<Longrightarrow> equal_var e"
  by (cases "combined dfc dft") (auto simp: script_def dest: ttest_flag_ab_test)

text \<open>
  The claim fails where the variances are not homogeneous: with a Levene p-value of 0.01
  the run prints that verdict and calls the t-test with the flag true.
\<close>

theorem heterogeneous_variances_still_equal_var:
  "script (fixed_stats (9 / 10, 1 / 2) (4, 1 / 100) (- 1, 349 / 1000) (2, 1 / 5))
      (purchase_frame [10, 20, 30]) (purchase_frame [1, 2, 300]) =
    ([Call_shapiro [Some (Num 10), Some (Num 20), Some (Num 30)],
      Print ''Sample looks normal!'',
      Call_shapiro [Some (Num 1), Some (Num 2), Some (Num 300)],
      Print ''Sample looks normal!'',
      Call_levene [Some (Num 10), Some (Num 20), Some (Num 30)]
                  [Some (Num 1), Some (Num 2), Some (Num 300)],
      Print ''Variances are not homogene!'',
      Call_ttest_ind [Some (Num 10), Some (Num 20), Some (Num 30)]
                     [Some (Num 1), Some (Num 2), Some (Num 300)] True,
      Print ''H0 can not be denied!'',
      Print_value ''t statistic = '' (Some (- 1)),
      Print_value ''p value = '' (Some (349 / 1000))], None)"
  apply (simp add: script_def combined_def)
  apply (subst replace_with_thresholds_sorted_frame, simp, simp)
  apply (subst replace_with_thresholds_sorted_frame, simp, simp)
  apply (simp add: interpolate_eval nth_Cons' purchase_frame_def setitem_def pd_concat_def
      run_defs loc_group_def getitem_def alpha_def fixed_stats_def)
  done

theorem ttest_equal_var_is_always_true_witness:
  "Call_ttest_ind [Some (Num 5), Some (Num 6)] [Some (Num 7), Some (Num 9)] True
     \<in> set (fst (script (fixed_stats (9 / 10, 1 / 2) (4, 1 / 50) (3, 1 / 100) (2, 1 / 5))
                   (purchase_frame [5, 6]) (purchase_frame [7, 9]))) \<and>
   is_Call_ttest_ind (Call_ttest_ind [Some (Num 5), Some (Num 6)] [Some (Num 7), Some (Num 9)] True) \<and>
   equal_var (Call_ttest_ind [Some (Num 5), Some (Num 6)] [Some (Num 7), Some (Num 9)] True)"
proof -
  have "Call_ttest_ind [Some (Num 5), Some (Num 6)] [Some (Num 7), Some (Num 9)] True
     \<in> set (fst (script (fixed_stats (9 / 10, 1 / 2) (4, 1 / 50) (3, 1 / 100) (2, 1 / 5))
                   (purchase_frame [5, 6]) (purchase_frame [7, 9])))"
    apply (simp add: script_def combined_def)
    apply (subst replace_with_thresholds_sorted_frame, simp, simp)
    apply (subst replace_with_thresholds_sorted_frame, simp, simp)
    apply (simp add: interpolate_eval nth_Cons' purchase_frame_def setitem_def pd_concat_def
        run_defs loc_group_def getitem_def alpha_def fixed_stats_def)
    done
  then show ?thesis
    using ttest_equal_var_is_always_true
      [of "Call_ttest_ind [Some (Num 5), Some (Num 6)] [Some (Num 7), Some (Num 9)] True"
          "fixed_stats (9 / 10, 1 / 2) (4, 1 / 50) (3, 1 / 100) (2, 1 / 5)"
          "purchase_frame [5, 6]" "purchase_frame [7, 9]"]
    by simp
qed

subsection \<open>Interpretation of the result\<close>

text \<open>
  C7. In a run in which every statistical routine returns, the script prints, after the
  verdicts on normality and homogeneity, that H0 cannot be denied exactly when the
  p-value of the comparison test is strictly greater than 0.05 and that H0 can be denied
  otherwise (also for a p-value that is NaN, of which no comparison holds); in both
  cases the statistic and the p-value are the next two lines, and the run ends there.
\<close>

theorem interpretation_follows_p_value:
  assumes "combined dfc dft = Inr df"
    and "loc_group df ''C'' = Inr xs" and "loc_group df ''T'' = Inr ys"
    and "shapiro st xs = Inr (stat_c, p_c)" and "shapiro st ys = Inr (stat_t, p_t)"
    and "levene st xs ys = Inr (stat_l, p_l)"
    and "ttest_ind st xs ys True = Inr (test_stat, p_value)"
  shows "script st dfc dft =
           ([Call_shapiro xs,
             Print (if gt p_c (Some (5 / 100))
                    then ''Sample looks normal!'' else ''Sample does not look normal!''),
             Call_shapiro ys,
             Print (if gt p_t (Some (5 / 100))
                    then ''Sample looks normal!'' else ''Sample does not look normal!''),
             Call_levene xs ys,
             Print (if gt p_l (Some (5 / 100))
                    then ''Variances are homogene!'' else ''Variances are not homogene!''),
             Call_ttest_ind xs ys True,
             Print (if gt p_value (Some (5 / 100))
                    then ''H0 can not be denied!'' else ''H0 can denied!''),
             Print_value ''t statistic = '' test_stat,
             Print_value ''p value = '' p_value], None)"
  using assms by (simp add: script_def run_defs alpha_def)

theorem interpretation_follows_p_value_witness:
  "combined (purchase_frame [1, 2]) (purchase_frame [3])
     = Inr (pd_concat (setitem (purchase_frame [1, 2]) ''Group'' (Str ''C''))
                      (setitem (purchase_frame [3]) ''Group'' (Str ''T''))) \<and>
   loc_group (pd_concat (setitem (purchase_frame [1, 2]) ''Group'' (Str ''C''))
                        (setitem (purchase_frame [3]) ''Group'' (Str ''T''))) ''C''
     = Inr [Some (Num 1), Some (Num 2)] \<and>
   loc_group (pd_concat (setitem (purchase_frame [1, 2]) ''Group'' (Str ''C''))
                        (setitem (purchase_frame [3]) ''Group'' (Str ''T''))) ''T''
     = Inr [Some (Num 3)] \<and>
   ttest_ind (fixed_stats (9 / 10, 1 / 2) (1, 1 / 2) (- 1, 349 / 1000) (2, 1 / 5))
     [Some (Num 1), Some (Num 2)] [Some (Num 3)] True = Inr (Some (- 1), Some (349 / 1000)) \<and>
   script (fixed_stats (9 / 10, 1 / 2) (1, 1 / 2) (- 1, 349 / 1000) (2, 1 / 5))
     (purchase_frame [1, 2]) (purchase_frame [3]) =
     ([Call_shapiro [Some (Num 1), Some (Num 2)],
       Print ''Sample looks normal!'',
       Call_shapiro [Some (Num 3)],
       Print ''Sample looks normal!'',
       Call_levene [Some (Num 1), Some (Num 2)] [Some (Num 3)],
       Print ''Variances are homogene!'',
       Call_ttest_ind [Some (Num 1), Some (Num 2)] [Some (Num 3)] True,
       Print ''H0 can not be denied!'',
       Print_value ''t statistic = '' (Some (- 1)),
       Print_value ''p value = '' (Some (349 / 1000))], None) \<and>
   ttest_ind (fixed_stats (9 / 10, 1 / 2) (1, 1 / 2) (- 3, 1 / 20) (2, 1 / 5))
     [Some (Num 1), Some (Num 2)] [Some (Num 3)] True = Inr (Some (- 3), Some (1 / 20)) \<and>
   script (fixed_stats (9 / 10, 1 / 2) (1, 1 / 2) (- 3, 1 / 20) (2, 1 / 5))
     (purchase_frame [1, 2]) (purchase_frame [3]) =
     ([Call_shapiro [Some (Num 1), Some (Num 2)],
       Print ''Sample looks normal!'',
       Call_shapiro [Some (Num 3)],
       Print ''Sample looks normal!'',
       Call_levene [Some (Num 1), Some (Num 2)] [Some (Num 3)],
       Print ''Variances are homogene!'',
       Call_ttest_ind [Some (Num 1), Some (Num 2)] [Some (Num 3)] True,
       Print ''H0 can denied!'',
       Print_value ''t statistic = '' (Some (- 3)),
       Print_value ''p value = '' (Some (1 / 20))], None)"
proof -
  let ?A = "purchase_frame [1, 2]"
  let ?B = "purchase_frame [3]"
  let ?DF = "pd_concat (setitem ?A ''Group'' (Str ''C'')) (setitem ?B ''Group'' (Str ''T''))"
  let ?s1 = "fixed_stats (9 / 10, 1 / 2) (1, 1 / 2) (- 1, 349 / 1000) (2, 1 / 5)"
  let ?s2 = "fixed_stats (9 / 10, 1 / 2) (1, 1 / 2) (- 3, 1 / 20) (2, 1 / 5)"
  have run: "combined ?A ?B = Inr ?DF"
    apply (simp add: combined_def)
    apply (subst replace_with_thresholds_sorted_frame, simp, simp)
    apply (subst replace_with_thresholds_sorted_frame, simp, simp)
    apply (simp add: interpolate_eval nth_Cons')
    done
  have c: "loc_group ?DF ''C'' = Inr [Some (Num 1), Some (Num 2)]"
    by (simp add: loc_group_def getitem_def pd_concat_def setitem_def purchase_frame_def)
  have t: "loc_group ?DF ''T'' = Inr [Some (Num 3)]"
    by (simp add: loc_group_def getitem_def pd_concat_def setitem_def purchase_frame_def)
  have sw1: "shapiro ?s1 xs = Inr (Some (9 / 10), Some (1 / 2))" for xs
    by (simp add: fixed_stats_def)
  have lv1: "levene ?s1 xs ys = Inr (Some 1, Some (1 / 2))" for xs ys
    by (simp add: fixed_stats_def)
  have r1: "ttest_ind ?s1 [Some (Num 1), Some (Num 2)] [Some (Num 3)] True
      = Inr (Some (- 1), Some (349 / 1000))"
    by (simp add: fixed_stats_def)
  have sw2: "shapiro ?s2 xs = Inr (Some (9 / 10), Some (1 / 2))" for xs
    by (simp add: fixed_stats_def)
  have lv2: "levene ?s2 xs ys = Inr (Some 1, Some (1 / 2))" for xs ys
    by (simp add: fixed_stats_def)
  have r2: "ttest_ind ?s2 [Some (Num 1), Some (Num 2)] [Some (Num 3)] True
      = Inr (Some (- 3), Some (1 / 20))"
    by (simp add: fixed_stats_def)
  have o1: "script ?s1 ?A ?B =
     ([Call_shapiro [Some (Num 1), Some (Num 2)],
       Print ''Sample looks normal!'',
       Call_shapiro [Some (Num 3)],
       Print ''Sample looks normal!'',
       Call_levene [Some (Num 1), Some (Num 2)] [Some (Num 3)],
       Print ''Variances are homogene!'',
       Call_ttest_ind [Some (Num 1), Some (Num 2)] [Some (Num 3)] True,
       Print ''H0 can not be denied!'',
       Print_value ''t statistic = '' (Some (- 1)),
       Print_value ''p value = '' (Some (349 / 1000))], None)"
    using interpretation_follows_p_value[OF run c t sw1 sw1 lv1 r1] by simp
  have o2: "script ?s2 ?A ?B =
     ([Call_shapiro [Some (Num 1), Some (Num 2)],
       Print ''Sample looks normal!'',
       Call_shapiro [Some (Num 3)],
       Print ''Sample looks normal!'',
       Call_levene [Some (Num 1), Some (Num 2)] [Some (Num 3)],
       Print ''Variances are homogene!'',
       Call_ttest_ind [Some (Num 1), Some (Num 2)] [Some (Num 3)] True,
       Print ''H0 can denied!'',
       Print_value ''t statistic = '' (Some (- 3)),
       Print_value ''p value = '' (Some (1 / 20))], None)"
    using interpretation_follows_p_value[OF run c t sw2 sw2 lv2 r2] by simp
  show ?thesis
    by (intro conjI) (fact run c t r1 r2 o1 o2)+
qed

subsection \<open>Outlier capping\<close>

text \<open>
  C4. \<open>replace_with_thresholds\<close> keeps the number of rows. A cell of the field that
  holds a number \<open>y\<close> holds a number afterwards, namely \<open>low_limit\<close> if \<open>y\<close> was
  below it, \<open>up_limit\<close> if \<open>y\<close> was above it and \<open>y\<close> otherwise, and that number
  lies between the two limits; a missing cell stays missing. So every number of the field
  after the run lies between the limits, where \<open>Q1\<close> and \<open>Q3\<close> are the 1st and the
  99th percentile of the field before capping, \<open>low_limit = Q1 - 1.5 * (Q3 - Q1)\<close> and
  \<open>up_limit = Q3 + 1.5 * (Q3 - Q1)\<close>, the pair that \<open>outlier_thresholds\<close> returns.
\<close>

theorem capped_field_within_limits:
  assumes "replace_with_thresholds df v = Inr df'"
  shows "length (rows df') = length (rows df) \<and>
         (\<forall>i < length (rows df). \<forall>y. (rows df ! i) v = Some (Num y) \<longrightarrow>
            (\<exists>Q1 Q3 low_limit up_limit x.
               quantile (field_values df v) (1 / 100) = Some Q1 \<and>
               quantile (field_values df v) (99 / 100) = Some Q3 \<and>
               low_limit = Q1 - 3 / 2 * (Q3 - Q1) \<and> up_limit = Q3 + 3 / 2 * (Q3 - Q1) \<and>
               outlier_thresholds df v = Inr (Some low_limit, Some up_limit) \<and>
               x = (if y < low_limit then low_limit else if up_limit < y then up_limit else y) \<and>
               (rows df' ! i) v = Some (Num x) \<and>
               low_limit \<le> x \<and> x \<le> up_limit)) \<and>
         (\<forall>i < length (rows df). num_of ((rows df ! i) v) = None \<longrightarrow>
            (rows df' ! i) v = (rows df ! i) v) \<and>
         (\<forall>r \<in> set (rows df'). \<forall>x. r v = Some (Num x) \<longrightarrow>
            (\<exists>Q1 Q3 low_limit up_limit.
               quantile (field_values df v) (1 / 100) = Some Q1 \<and>
               quantile (field_values df v) (99 / 100) = Some Q3 \<and>
               low_limit = Q1 - 3 / 2 * (Q3 - Q1) \<and> up_limit = Q3 + 3 / 2 * (Q3 - Q1) \<and>
               outlier_thresholds df v = Inr (Some low_limit, Some up_limit) \<and>
               low_limit \<le> x \<and> x \<le> up_limit))"
proof (intro conjI allI impI ballI)
  show "length (rows df') = length (rows df)"
    using assms by (rule replace_with_thresholds_length)
next
  fix i y assume i: "i < length (rows df)" and y: "(rows df ! i) v = Some (Num y)"
  obtain low up where th: "outlier_thresholds df v = Inr (low, up)"
    and df': "df' = df\<lparr>rows := map (\<lambda>r. set_if_above v up (set_if_below v low r)) (rows df)\<rparr>"
    using replace_with_thresholds_rows[OF assms] by blast
  have "Some y \<in> set (field_values df v)"
    using i y by (force simp: field_values_def in_set_conv_nth)
  from thresholds_of_values[OF th this] obtain Q1 Q3 where
    q: "quantile (field_values df v) (1 / 100) = Some Q1"
       "quantile (field_values df v) (99 / 100) = Some Q3"
    and le: "Q1 \<le> Q3"
    and lu: "low = Some (Q1 - 3 / 2 * (Q3 - Q1))" "up = Some (Q3 + 3 / 2 * (Q3 - Q1))"
    by blast
  define l where "l = Q1 - 3 / 2 * (Q3 - Q1)"
  define u where "u = Q3 + 3 / 2 * (Q3 - Q1)"
  define x where "x = (if y < l then l else if u < y then u else y)"
  have "0 \<le> 3 / 2 * (Q3 - Q1)" using le by simp
  then have lu_le: "l \<le> u" unfolding l_def u_def using le by linarith
  have cell: "(rows df' ! i) v = Some (Num x)"
    using i capped_cell[of "rows df ! i" v y l u, OF y lu_le] by (simp add: df' lu l_def u_def x_def)
  have bounds: "l \<le> x \<and> x \<le> u" using lu_le by (auto simp: x_def)
  show "\<exists>Q1 Q3 low_limit up_limit x.
          quantile (field_values df v) (1 / 100) = Some Q1 \<and>
          quantile (field_values df v) (99 / 100) = Some Q3 \<and>
          low_limit = Q1 - 3 / 2 * (Q3 - Q1) \<and> up_limit = Q3 + 3 / 2 * (Q3 - Q1) \<and>
          outlier_thresholds df v = Inr (Some low_limit, Some up_limit) \<and>
          x = (if y < low_limit then low_limit else if up_limit < y then up_limit else y) \<and>
          (rows df' ! i) v = Some (Num x) \<and>
          low_limit \<le> x \<and> x \<le> up_limit"
    using q th lu cell bounds unfolding l_def u_def x_def by blast
next
  fix i assume i: "i < length (rows df)" and n: "num_of ((rows df ! i) v) = None"
  obtain low up where
    df': "df' = df\<lparr>rows := map (\<lambda>r. set_if_above v up (set_if_below v low r)) (rows df)\<rparr>"
    using replace_with_thresholds_rows[OF assms] by blast
  show "(rows df' ! i) v = (rows df ! i) v"
    using i n by (simp add: df' set_if_below_None set_if_above_None)
next
  fix r x assume "r \<in> set (rows df')" and "r v = Some (Num x)"
  from capped_value_bounds[OF assms this]
  show "\<exists>Q1 Q3 low_limit up_limit.
          quantile (field_values df v) (1 / 100) = Some Q1 \<and>
          quantile (field_values df v) (99 / 100) = Some Q3 \<and>
          low_limit = Q1 - 3 / 2 * (Q3 - Q1) \<and> up_limit = Q3 + 3 / 2 * (Q3 - Q1) \<and>
          outlier_thresholds df v = Inr (Some low_limit, Some up_limit) \<and>
          low_limit \<le> x \<and> x \<le> up_limit"
    by blast
qed

theorem capped_field_within_limits_witness:
  "replace_with_thresholds
     (purchase_frame (- 1000 # replicate 50 0 @ replicate 49 10 @ [1000])) ''Purchase''
     = Inr (purchase_frame (- 15 # replicate 50 0 @ replicate 49 10 @ [25])) \<and>
   (0 :: nat) < length (rows (purchase_frame (- 1000 # replicate 50 0 @ replicate 49 10 @ [1000]))) \<and>
   (rows (purchase_frame (- 1000 # replicate 50 0 @ replicate 49 10 @ [1000])) ! 0) ''Purchase''
     = Some (Num (- 1000)) \<and>
   (rows (purchase_frame (- 15 # replicate 50 0 @ replicate 49 10 @ [25])) ! 0) ''Purchase''
     = Some (Num (- 15)) \<and>
   (100 :: nat) < length (rows (purchase_frame (- 1000 # replicate 50 0 @ replicate 49 10 @ [1000]))) \<and>
   (rows (purchase_frame (- 1000 # replicate 50 0 @ replicate 49 10 @ [1000])) ! 100) ''Purchase''
     = Some (Num 1000) \<and>
   (rows (purchase_frame (- 15 # replicate 50 0 @ replicate 49 10 @ [25])) ! 100) ''Purchase''
     = Some (Num 25) \<and>
   outlier_thresholds
     (purchase_frame (- 1000 # replicate 50 0 @ replicate 49 10 @ [1000])) ''Purchase''
     = Inr (Some (- 15), Some 25) \<and>
   [''Purchase'' \<mapsto> Num 25]
     \<in> set (rows (purchase_frame (- 15 # replicate 50 0 @ replicate 49 10 @ [25]))) \<and>
   [''Purchase'' \<mapsto> Num 25] ''Purchase'' = Some (Num 25) \<and>
   (\<exists>Q1 Q3 low_limit up_limit.
      quantile (field_values (purchase_frame (- 1000 # replicate 50 0 @ replicate 49 10 @ [1000]))
                  ''Purchase'') (1 / 100) = Some Q1 \<and>
      quantile (field_values (purchase_frame (- 1000 # replicate 50 0 @ replicate 49 10 @ [1000]))
                  ''Purchase'') (99 / 100) = Some Q3 \<and>
      low_limit = Q1 - 3 / 2 * (Q3 - Q1) \<and> up_limit = Q3 + 3 / 2 * (Q3 - Q1) \<and>
      outlier_thresholds
        (purchase_frame (- 1000 # replicate 50 0 @ replicate 49 10 @ [1000])) ''Purchase''
        = Inr (Some low_limit, Some up_limit) \<and>
      low_limit \<le> 25 \<and> 25 \<le> up_limit) \<and>
   replace_with_thresholds
     (pd_concat (purchase_frame [1, 2])
        \<lparr>index = [0], columns = [''Click''], rows = [[''Click'' \<mapsto> Num 7]]\<rparr>) ''Purchase''
     = Inr (pd_concat (purchase_frame [1, 2])
              \<lparr>index = [0], columns = [''Click''], rows = [[''Click'' \<mapsto> Num 7]]\<rparr>) \<and>
   (2 :: nat) < length (rows (pd_concat (purchase_frame [1, 2])
        \<lparr>index = [0], columns = [''Click''], rows = [[''Click'' \<mapsto> Num 7]]\<rparr>)) \<and>
   num_of ((rows (pd_concat (purchase_frame [1, 2])
        \<lparr>index = [0], columns = [''Click''], rows = [[''Click'' \<mapsto> Num 7]]\<rparr>) ! 2) ''Purchase'')
     = None"
proof -
  let ?xs = "- 1000 # replicate 50 0 @ replicate 49 10 @ [1000 :: real]"
  let ?ys = "- 15 # replicate 50 0 @ replicate 49 10 @ [25 :: real]"
  let ?M = "pd_concat (purchase_frame [1, 2])
              \<lparr>index = [0], columns = [''Click''], rows = [[''Click'' \<mapsto> Num 7]]\<rparr>"
  have run: "replace_with_thresholds (purchase_frame ?xs) ''Purchase'' = Inr (purchase_frame ?ys)"
    by (subst replace_with_thresholds_sorted_frame)
       (simp_all add: interpolate_eval nth_Cons' nth_append sorted_append)
  have th: "outlier_thresholds (purchase_frame ?xs) ''Purchase'' = Inr (Some (- 15), Some 25)"
    by (subst outlier_thresholds_sorted_frame)
       (simp_all add: interpolate_eval nth_Cons' nth_append sorted_append)
  have i0: "(0 :: nat) < length (rows (purchase_frame ?xs))" by (simp add: purchase_frame_def)
  have c0: "(rows (purchase_frame ?xs) ! 0) ''Purchase'' = Some (Num (- 1000))"
    by (simp add: purchase_frame_def)
  have i100: "(100 :: nat) < length (rows (purchase_frame ?xs))" by (simp add: purchase_frame_def)
  have c100: "(rows (purchase_frame ?xs) ! 100) ''Purchase'' = Some (Num 1000)"
    by (simp add: purchase_frame_def nth_Cons' nth_append)
  have mem: "[''Purchase'' \<mapsto> Num 25] \<in> set (rows (purchase_frame ?ys))"
    by (simp add: purchase_frame_def)
  have val: "[''Purchase'' \<mapsto> Num (25 :: real)] ''Purchase'' = Some (Num 25)" by simp
  have runM: "replace_with_thresholds ?M ''Purchase'' = Inr ?M"
    by (simp add: replace_with_thresholds_eq outlier_thresholds_eq pd_concat_def purchase_frame_def
        quantile_def interpolate_eval set_if_below_def set_if_above_def)
  have iM: "(2 :: nat) < length (rows ?M)" by (simp add: pd_concat_def purchase_frame_def)
  have nM: "num_of ((rows ?M ! 2) ''Purchase'') = None"
    by (simp add: pd_concat_def purchase_frame_def)
  have cap: "\<exists>Q1 Q3 low_limit up_limit x.
               quantile (field_values df v) (1 / 100) = Some Q1 \<and>
               quantile (field_values df v) (99 / 100) = Some Q3 \<and>
               low_limit = Q1 - 3 / 2 * (Q3 - Q1) \<and> up_limit = Q3 + 3 / 2 * (Q3 - Q1) \<and>
               outlier_thresholds df v = Inr (Some low_limit, Some up_limit) \<and>
               x = (if y < low_limit then low_limit else if up_limit < y then up_limit else y) \<and>
               (rows df' ! i) v = Some (Num x) \<and>
               low_limit \<le> x \<and> x \<le> up_limit"
    if "replace_with_thresholds df v = Inr df'" "i < length (rows df)"
       "(rows df ! i) v = Some (Num y)" for df v df' i y
    using capped_field_within_limits[OF that(1)] that(2,3) by blast
  have missing: "(rows df' ! i) v = (rows df ! i) v"
    if "replace_with_thresholds df v = Inr df'" "i < length (rows df)"
       "num_of ((rows df ! i) v) = None" for df v df' i
    using capped_field_within_limits[OF that(1)] that(2,3) by blast
  have after: "\<exists>Q1 Q3 low_limit up_limit.
               quantile (field_values df v) (1 / 100) = Some Q1 \<and>
               quantile (field_values df v) (99 / 100) = Some Q3 \<and>
               low_limit = Q1 - 3 / 2 * (Q3 - Q1) \<and> up_limit = Q3 + 3 / 2 * (Q3 - Q1) \<and>
               outlier_thresholds df v = Inr (Some low_limit, Some up_limit) \<and>
               low_limit \<le> x \<and> x \<le> up_limit"
    if "replace_with_thresholds df v = Inr df'" "r \<in> set (rows df')" "r v = Some (Num x)"
    for df v df' r x
    using capped_field_within_limits[OF that(1)] that(2,3) by blast
  have d0: "(rows (purchase_frame ?ys) ! 0) ''Purchase'' = Some (Num (- 15))"
    using cap[OF run i0 c0] th by auto
  have d100: "(rows (purchase_frame ?ys) ! 100) ''Purchase'' = Some (Num 25)"
    using cap[OF run i100 c100] th by auto
  have "(rows ?M ! 2) ''Purchase'' = (rows ?M ! 2) ''Purchase''"
    by (rule missing[OF runM iM nM])
  show ?thesis
    by (intro conjI) (fact run i0 c0 d0 i100 c100 d100 th mem val after[OF run mem val] runM iM nM)+
qed

text \<open>
  C10. \<open>replace_with_thresholds\<close> keeps the index, the columns and the number of rows;
  in every row it keeps every column other than the target field, and it changes the
  target field only where the value was strictly below the lower limit or strictly above
  the upper limit.
\<close>

theorem replace_with_thresholds_frame:
  assumes "replace_with_thresholds df v = Inr df'"
  shows "index df' = index df \<and> columns df' = columns df \<and>
         length (rows df') = length (rows df) \<and>
         (\<exists>low_limit up_limit. outlier_thresholds df v = Inr (low_limit, up_limit) \<and>
            (\<forall>i < length (rows df).
               (\<forall>c. c \<noteq> v \<longrightarrow> (rows df' ! i) c = (rows df ! i) c) \<and>
               ((rows df' ! i) v \<noteq> (rows df ! i) v \<longrightarrow>
                  lt (num_of ((rows df ! i) v)) low_limit \<or>
                  gt (num_of ((rows df ! i) v)) up_limit)))"
proof -
  obtain low up where th: "outlier_thresholds df v = Inr (low, up)"
    and df': "df' = df\<lparr>rows := map (\<lambda>r. set_if_above v up (set_if_below v low r)) (rows df)\<rparr>"
    using replace_with_thresholds_rows[OF assms] by blast
  have "\<forall>i < length (rows df).
          (\<forall>c. c \<noteq> v \<longrightarrow> (rows df' ! i) c = (rows df ! i) c) \<and>
          ((rows df' ! i) v \<noteq> (rows df ! i) v \<longrightarrow>
             lt (num_of ((rows df ! i) v)) low \<or> gt (num_of ((rows df ! i) v)) up)"
  proof (intro allI impI conjI)
    fix i c assume "i < length (rows df)" "c \<noteq> v"
    then show "(rows df' ! i) c = (rows df ! i) c"
      by (simp add: df' set_if_above_other set_if_below_other)
  next
    fix i assume i: "i < length (rows df)" and ch: "(rows df' ! i) v \<noteq> (rows df ! i) v"
    show "lt (num_of ((rows df ! i) v)) low \<or> gt (num_of ((rows df ! i) v)) up"
    proof (rule ccontr)
      assume "\<not> ?thesis"
      then have "set_if_above v up (set_if_below v low (rows df ! i)) = rows df ! i"
        by (simp add: set_if_below_keep set_if_above_keep)
      with i ch show False by (simp add: df')
    qed
  qed
  with th show ?thesis by (auto simp: df')
qed

theorem replace_with_thresholds_frame_witness:
  "replace_with_thresholds
     (setitem (purchase_frame (- 1000 # replicate 50 0 @ replicate 50 10)) ''Click'' (Num 7))
     ''Purchase''
     = Inr (setitem (purchase_frame (- 15 # replicate 50 0 @ replicate 50 10)) ''Click'' (Num 7)) \<and>
   outlier_thresholds
     (setitem (purchase_frame (- 1000 # replicate 50 0 @ replicate 50 10)) ''Click'' (Num 7))
     ''Purchase'' = Inr (Some (- 15), Some 25) \<and>
   0 < length (rows (setitem (purchase_frame (- 1000 # replicate 50 0 @ replicate 50 10))
                       ''Click'' (Num 7))) \<and>
   ''Click'' \<noteq> ''Purchase'' \<and>
   (rows (setitem (purchase_frame (- 15 # replicate 50 0 @ replicate 50 10)) ''Click'' (Num 7)) ! 0)
      ''Click''
     = (rows (setitem (purchase_frame (- 1000 # replicate 50 0 @ replicate 50 10)) ''Click'' (Num 7)) ! 0)
         ''Click'' \<and>
   (rows (setitem (purchase_frame (- 15 # replicate 50 0 @ replicate 50 10)) ''Click'' (Num 7)) ! 0)
      ''Purchase''
     \<noteq> (rows (setitem (purchase_frame (- 1000 # replicate 50 0 @ replicate 50 10)) ''Click'' (Num 7)) ! 0)
         ''Purchase'' \<and>
   lt (num_of ((rows (setitem (purchase_frame (- 1000 # replicate 50 0 @ replicate 50 10))
                        ''Click'' (Num 7)) ! 0) ''Purchase'')) (Some (- 15)) \<and>
   length (rows (setitem (purchase_frame (- 15 # replicate 50 0 @ replicate 50 10)) ''Click'' (Num 7)))
     = length (rows (setitem (purchase_frame (- 1000 # replicate 50 0 @ replicate 50 10))
                       ''Click'' (Num 7)))"
proof -
  let ?xs = "- 1000 # replicate 50 0 @ replicate 50 (10 :: real)"
  let ?df = "setitem (purchase_frame ?xs) ''Click'' (Num 7)"
  let ?df' = "setitem (purchase_frame (- 15 # replicate 50 0 @ replicate 50 10)) ''Click'' (Num 7)"
  have fv: "field_values ?df ''Purchase'' = map Some ?xs"
    by (simp add: field_values_def setitem_def purchase_frame_def comp_def)
  have q: "quantile (map Some ?xs) (1 / 100) = Some 0" "quantile (map Some ?xs) (99 / 100) = Some 10"
    by (subst quantile_of_sorted[OF dropna_map_Some];
        simp add: interpolate_eval nth_Cons' nth_append sorted_append)+
  have th: "outlier_thresholds ?df ''Purchase'' = Inr (Some (- 15), Some 25)"
    using q fv[unfolded field_values_def]
    by (simp add: outlier_thresholds_eq setitem_def purchase_frame_def list_ex_iff comp_def)
  have run: "replace_with_thresholds ?df ''Purchase'' = Inr ?df'"
    by (simp add: replace_with_thresholds_eq th)
       (simp add: setitem_def purchase_frame_def set_if_below_def set_if_above_def comp_def
          fun_upd_twist)
  show ?thesis
    using replace_with_thresholds_frame[OF run] run th
    by (simp add: setitem_def purchase_frame_def)
qed

text \<open>
  C8. If the 1st and the 99th percentile of a field coincide at \<open>Q1\<close>, both limits are
  \<open>Q1\<close> and \<open>replace_with_thresholds\<close> sets every number of the field to \<open>Q1\<close>.
\<close>

theorem zero_iqr_collapses_field:
  assumes ok: "replace_with_thresholds df v = Inr df'"
    and q1: "quantile (field_values df v) (1 / 100) = Some Q1"
    and q3: "quantile (field_values df v) (99 / 100) = Some Q1"
  shows "outlier_thresholds df v = Inr (Some Q1, Some Q1) \<and>
         (\<forall>i < length (rows df). \<forall>x. (rows df ! i) v = Some (Num x) \<longrightarrow>
            (rows df' ! i) v = Some (Num Q1))"
proof -
  obtain low up where th: "outlier_thresholds df v = Inr (low, up)"
    and df': "df' = df\<lparr>rows := map (\<lambda>r. set_if_above v up (set_if_below v low r)) (rows df)\<rparr>"
    using replace_with_thresholds_rows[OF ok] by blast
  have "Inr (low, up) = (Inr (Some Q1, Some Q1) :: error + real option \<times> real option)"
    using th q1 q3 unfolding outlier_thresholds_eq field_values_def
    by (auto split: if_splits)
  then have lu: "low = Some Q1" "up = Some Q1" by simp_all
  have "(rows df' ! i) v = Some (Num Q1)" if "i < length (rows df)" "(rows df ! i) v = Some (Num x)" for i x
    using that by (simp add: df' lu set_if_below_def set_if_above_def)
  with th lu show ?thesis by blast
qed

theorem zero_iqr_collapses_field_witness:
  "replace_with_thresholds (purchase_frame (0 # replicate 99 5 @ [9])) ''Purchase''
     = Inr (purchase_frame (5 # replicate 99 5 @ [5])) \<and>
   quantile (field_values (purchase_frame (0 # replicate 99 5 @ [9])) ''Purchase'') (1 / 100)
     = Some 5 \<and>
   quantile (field_values (purchase_frame (0 # replicate 99 5 @ [9])) ''Purchase'') (99 / 100)
     = Some 5 \<and>
   outlier_thresholds (purchase_frame (0 # replicate 99 5 @ [9])) ''Purchase''
     = Inr (Some 5, Some 5) \<and>
   0 < length (rows (purchase_frame (0 # replicate 99 5 @ [9]))) \<and>
   (rows (purchase_frame (0 # replicate 99 5 @ [9])) ! 0) ''Purchase'' = Some (Num 0) \<and>
   (rows (purchase_frame (5 # replicate 99 5 @ [5])) ! 0) ''Purchase'' = Some (Num 5)"
proof -
  let ?xs = "0 # replicate 99 5 @ [9 :: real]"
  have run: "replace_with_thresholds (purchase_frame ?xs) ''Purchase''
      = Inr (purchase_frame (5 # replicate 99 5 @ [5]))"
    by (subst replace_with_thresholds_sorted_frame)
       (simp_all add: interpolate_eval nth_Cons' nth_append sorted_append)
  have q1: "quantile (field_values (purchase_frame ?xs) ''Purchase'') (1 / 100) = Some 5"
    unfolding field_values_purchase_frame
    by (subst quantile_of_sorted[OF dropna_map_Some])
       (simp_all add: interpolate_eval nth_Cons' nth_append sorted_append)
  have q3: "quantile (field_values (purchase_frame ?xs) ''Purchase'') (99 / 100) = Some 5"
    unfolding field_values_purchase_frame
    by (subst quantile_of_sorted[OF dropna_map_Some])
       (simp_all add: interpolate_eval nth_Cons' nth_append sorted_append)
  show ?thesis
    using zero_iqr_collapses_field[OF run q1 q3] run q1 q3
    by (simp add: purchase_frame_def)
qed

text \<open>
  C3, as amended. The claim says that a second application changes nothing. The second
  application recomputes the percentiles from the capped values, and they can move
  inwards. What holds: the second application leaves the data frame as the first one
  left it whenever the recomputed limits are not tighter than the first ones (the new
  lower limit is not above the old one, the new upper limit not below the old one).
\<close>

theorem capping_idempotent_unless_limits_tighten:
  assumes ok: "replace_with_thresholds df v = Inr df'"
    and th: "outlier_thresholds df v = Inr (low_limit, up_limit)"
    and th': "outlier_thresholds df' v = Inr (low_limit', up_limit')"
    and low: "\<not> lt low_limit low_limit'" and up: "\<not> gt up_limit up_limit'"
  shows "replace_with_thresholds df' v = Inr df'"
proof -
  have keep: "set_if_above v up_limit' (set_if_below v low_limit' r) = r" if r: "r \<in> set (rows df')" for r
  proof (cases "num_of (r v)")
    case None
    then show ?thesis by (simp add: set_if_below_None set_if_above_None)
  next
    case (Some x)
    then have x: "r v = Some (Num x)" by (cases "r v" rule: num_of.cases) auto
    from capped_value_bounds[OF ok r x] th obtain l u where
      lu: "low_limit = Some l" "up_limit = Some u" and b: "l \<le> x" "x \<le> u" by auto
    have 1: "\<not> lt (num_of (r v)) low_limit'"
      using low lu b Some by (cases low_limit') auto
    have 2: "\<not> gt (num_of (r v)) up_limit'"
      using up lu b Some by (cases up_limit') auto
    show ?thesis using 1 2 by (simp add: set_if_below_keep set_if_above_keep)
  qed
  have "map (\<lambda>r. set_if_above v up_limit' (set_if_below v low_limit' r)) (rows df') = rows df'"
    using keep by (simp add: map_idI)
  then show ?thesis by (simp add: replace_with_thresholds_eq th')
qed

text \<open>
  The claim fails on 81 purchases, one of \<open>-100\<close> and eighty of \<open>0\<close>: the first pass
  has the 1st percentile \<open>-20\<close> and caps \<open>-100\<close> to \<open>-50\<close>; the second pass has
  the 1st percentile \<open>-10\<close> and caps \<open>-50\<close> to \<open>-25\<close>.
\<close>

theorem capping_twice_differs_from_once:
  "replace_with_thresholds (purchase_frame (- 100 # replicate 80 0)) ''Purchase''
     = Inr (purchase_frame (- 50 # replicate 80 0)) \<and>
   replace_with_thresholds (purchase_frame (- 50 # replicate 80 0)) ''Purchase''
     = Inr (purchase_frame (- 25 # replicate 80 0)) \<and>
   purchase_frame (- 25 # replicate 80 0) \<noteq> purchase_frame (- 50 # replicate 80 0)"
proof (intro conjI)
  show "replace_with_thresholds (purchase_frame (- 100 # replicate 80 0)) ''Purchase''
     = Inr (purchase_frame (- 50 # replicate 80 0))"
    by (subst replace_with_thresholds_sorted_frame) (simp_all add: interpolate_eval nth_Cons')
  show "replace_with_thresholds (purchase_frame (- 50 # replicate 80 0)) ''Purchase''
     = Inr (purchase_frame (- 25 # replicate 80 0))"
    by (subst replace_with_thresholds_sorted_frame) (simp_all add: interpolate_eval nth_Cons')
  show "purchase_frame (- 25 # replicate 80 0) \<noteq> purchase_frame (- 50 # replicate 80 0)"
    by (simp add: purchase_frame_inject)
qed

theorem capping_idempotent_unless_limits_tighten_witness:
  "replace_with_thresholds (purchase_frame (- 1000 # replicate 50 0 @ replicate 50 10)) ''Purchase''
     = Inr (purchase_frame (- 15 # replicate 50 0 @ replicate 50 10)) \<and>
   outlier_thresholds (purchase_frame (- 1000 # replicate 50 0 @ replicate 50 10)) ''Purchase''
     = Inr (Some (- 15), Some 25) \<and>
   outlier_thresholds (purchase_frame (- 15 # replicate 50 0 @ replicate 50 10)) ''Purchase''
     = Inr (Some (- 15), Some 25) \<and>
   \<not> lt (Some (- 15)) (Some (- 15)) \<and> \<not> gt (Some 25) (Some 25) \<and>
   replace_with_thresholds (purchase_frame (- 15 # replicate 50 0 @ replicate 50 10)) ''Purchase''
     = Inr (purchase_frame (- 15 # replicate 50 0 @ replicate 50 10))"
proof -
  have run: "replace_with_thresholds (purchase_frame (- 1000 # replicate 50 0 @ replicate 50 10))
      ''Purchase'' = Inr (purchase_frame (- 15 # replicate 50 0 @ replicate 50 10))"
    by (subst replace_with_thresholds_sorted_frame)
       (simp_all add: interpolate_eval nth_Cons' nth_append sorted_append)
  have th: "outlier_thresholds (purchase_frame (- 1000 # replicate 50 0 @ replicate 50 10))
      ''Purchase'' = Inr (Some (- 15), Some 25)"
    by (subst outlier_thresholds_sorted_frame)
       (simp_all add: interpolate_eval nth_Cons' nth_append sorted_append)
  have th': "outlier_thresholds (purchase_frame (- 15 # replicate 50 0 @ replicate 50 10))
      ''Purchase'' = Inr (Some (- 15), Some 25)"
    by (subst outlier_thresholds_sorted_frame)
       (simp_all add: interpolate_eval nth_Cons' nth_append sorted_append)
  have low: "\<not> lt (Some (- 15 :: real)) (Some (- 15))" by simp
  have up: "\<not> gt (Some (25 :: real)) (Some 25)" by simp
  show ?thesis
    using capping_idempotent_unless_limits_tighten[OF run th th' low up] run th th'
    by simp
qed

subsection \<open>Labelling and merging\<close>

lemma replace_with_thresholds_other_columns:
  assumes "replace_with_thresholds df v = Inr df'" and "i < length (rows df)" and "c \<noteq> v"
  shows "(rows df' ! i) c = (rows df ! i) c"
  using replace_with_thresholds_rows[OF assms(1)] assms(2,3)
  by (auto simp: set_if_above_other set_if_below_other)

lemma combined_Inr:
  assumes "combined dfc dft = Inr df"
  shows "\<exists>dfc1 dft1. replace_with_thresholds dfc ''Purchase'' = Inr dfc1 \<and>
           replace_with_thresholds dft ''Purchase'' = Inr dft1 \<and>
           length (rows dfc1) = length (rows dfc) \<and> length (rows dft1) = length (rows dft) \<and>
           index df = [0 ..< length (rows dfc) + length (rows dft)] \<and>
           rows df = map (\<lambda>r. r(''Group'' \<mapsto> Str ''C'')) (rows dfc1) @
                     map (\<lambda>r. r(''Group'' \<mapsto> Str ''T'')) (rows dft1)"
  using assms
  by (auto simp: combined_def pd_concat_def setitem_def replace_with_thresholds_length
      split: sum.splits)

text \<open>
  C5. The combined data frame has as many rows as the two group data frames together and
  the index \<open>0, \<dots>, n - 1\<close>; its first rows are the rows of Control in their order, its
  next rows the rows of Test in their order, each as the capper left it and with its
  label; the columns other than Purchase and Group are those of the sheets.
\<close>

theorem combined_keeps_rows_in_order:
  assumes "combined dfc dft = Inr df"
  shows "length (rows df) = length (rows dfc) + length (rows dft) \<and>
         index df = [0 ..< length (rows dfc) + length (rows dft)] \<and>
         (\<exists>dfc1 dft1.
            replace_with_thresholds dfc ''Purchase'' = Inr dfc1 \<and>
            replace_with_thresholds dft ''Purchase'' = Inr dft1 \<and>
            (\<forall>i < length (rows dfc).
               rows df ! i = (rows dfc1 ! i)(''Group'' \<mapsto> Str ''C'') \<and>
               (\<forall>c. c \<noteq> ''Purchase'' \<and> c \<noteq> ''Group'' \<longrightarrow>
                  (rows df ! i) c = (rows dfc ! i) c)) \<and>
            (\<forall>j < length (rows dft).
               rows df ! (length (rows dfc) + j) = (rows dft1 ! j)(''Group'' \<mapsto> Str ''T'') \<and>
               (\<forall>c. c \<noteq> ''Purchase'' \<and> c \<noteq> ''Group'' \<longrightarrow>
                  (rows df ! (length (rows dfc) + j)) c = (rows dft ! j) c)))"
proof -
  from combined_Inr[OF assms] obtain dfc1 dft1 where
    c1: "replace_with_thresholds dfc ''Purchase'' = Inr dfc1" and
    t1: "replace_with_thresholds dft ''Purchase'' = Inr dft1" and
    lc: "length (rows dfc1) = length (rows dfc)" and lt: "length (rows dft1) = length (rows dft)" and
    ix: "index df = [0 ..< length (rows dfc) + length (rows dft)]" and
    rs: "rows df = map (\<lambda>r. r(''Group'' \<mapsto> Str ''C'')) (rows dfc1) @
                   map (\<lambda>r. r(''Group'' \<mapsto> Str ''T'')) (rows dft1)"
    by blast
  have len: "length (rows df) = length (rows dfc) + length (rows dft)"
    by (simp add: rs lc lt)
  have ci: "rows df ! i = (rows dfc1 ! i)(''Group'' \<mapsto> Str ''C'')"
    if "i < length (rows dfc)" for i
    using that by (simp add: rs nth_append lc)
  have tj: "rows df ! (length (rows dfc) + j) = (rows dft1 ! j)(''Group'' \<mapsto> Str ''T'')"
    if "j < length (rows dft)" for j
    using that by (simp add: rs nth_append lc lt)
  have co: "(rows df ! i) c = (rows dfc ! i) c"
    if "i < length (rows dfc)" "c \<noteq> ''Purchase'' \<and> c \<noteq> ''Group''" for i c
    using that ci[OF that(1)] replace_with_thresholds_other_columns[OF c1 that(1), of c]
    by simp
  have to: "(rows df ! (length (rows dfc) + j)) c = (rows dft ! j) c"
    if "j < length (rows dft)" "c \<noteq> ''Purchase'' \<and> c \<noteq> ''Group''" for j c
    using that tj[OF that(1)] replace_with_thresholds_other_columns[OF t1 that(1), of c]
    by simp
  show ?thesis using len ix c1 t1 ci tj co to by blast
qed

theorem combined_keeps_rows_in_order_witness:
  "combined (setitem (purchase_frame [1, 2, 3]) ''Click'' (Num 7))
            (setitem (purchase_frame [4, 5]) ''Click'' (Num 8))
     = Inr (pd_concat
              (setitem (setitem (purchase_frame [1, 2, 3]) ''Click'' (Num 7)) ''Group'' (Str ''C''))
              (setitem (setitem (purchase_frame [4, 5]) ''Click'' (Num 8)) ''Group'' (Str ''T''))) \<and>
   length (rows (pd_concat
              (setitem (setitem (purchase_frame [1, 2, 3]) ''Click'' (Num 7)) ''Group'' (Str ''C''))
              (setitem (setitem (purchase_frame [4, 5]) ''Click'' (Num 8)) ''Group'' (Str ''T''))))
     = 5 \<and>
   index (pd_concat
              (setitem (setitem (purchase_frame [1, 2, 3]) ''Click'' (Num 7)) ''Group'' (Str ''C''))
              (setitem (setitem (purchase_frame [4, 5]) ''Click'' (Num 8)) ''Group'' (Str ''T'')))
     = [0, 1, 2, 3, 4] \<and>
   (2 :: nat) < length (rows (setitem (purchase_frame [1, 2, 3]) ''Click'' (Num 7))) \<and>
   ''Click'' \<noteq> ''Purchase'' \<and> ''Click'' \<noteq> ''Group'' \<and>
   (rows (pd_concat
              (setitem (setitem (purchase_frame [1, 2, 3]) ''Click'' (Num 7)) ''Group'' (Str ''C''))
              (setitem (setitem (purchase_frame [4, 5]) ''Click'' (Num 8)) ''Group'' (Str ''T'')))
      ! 2) ''Click''
     = (rows (setitem (purchase_frame [1, 2, 3]) ''Click'' (Num 7)) ! 2) ''Click'' \<and>
   (1 :: nat) < length (rows (setitem (purchase_frame [4, 5]) ''Click'' (Num 8))) \<and>
   (rows (pd_concat
              (setitem (setitem (purchase_frame [1, 2, 3]) ''Click'' (Num 7)) ''Group'' (Str ''C''))
              (setitem (setitem (purchase_frame [4, 5]) ''Click'' (Num 8)) ''Group'' (Str ''T'')))
      ! (length (rows (setitem (purchase_frame [1, 2, 3]) ''Click'' (Num 7))) + 1)) ''Click''
     = (rows (setitem (purchase_frame [4, 5]) ''Click'' (Num 8)) ! 1) ''Click''"
proof -
  have a: "replace_with_thresholds (setitem (purchase_frame [1, 2, 3]) ''Click'' (Num 7)) ''Purchase''
      = Inr (setitem (purchase_frame [1, 2, 3]) ''Click'' (Num 7))"
    by (simp add: replace_with_thresholds_eq outlier_thresholds_eq setitem_def purchase_frame_def
        quantile_def interpolate_eval set_if_below_def set_if_above_def)
  have b: "replace_with_thresholds (setitem (purchase_frame [4, 5]) ''Click'' (Num 8)) ''Purchase''
      = Inr (setitem (purchase_frame [4, 5]) ''Click'' (Num 8))"
    by (simp add: replace_with_thresholds_eq outlier_thresholds_eq setitem_def purchase_frame_def
        quantile_def interpolate_eval set_if_below_def set_if_above_def)
  have run: "combined (setitem (purchase_frame [1, 2, 3]) ''Click'' (Num 7))
            (setitem (purchase_frame [4, 5]) ''Click'' (Num 8))
     = Inr (pd_concat
              (setitem (setitem (purchase_frame [1, 2, 3]) ''Click'' (Num 7)) ''Group'' (Str ''C''))
              (setitem (setitem (purchase_frame [4, 5]) ''Click'' (Num 8)) ''Group'' (Str ''T'')))"
    by (simp add: combined_def a b)
  let ?A = "setitem (purchase_frame [1, 2, 3]) ''Click'' (Num 7)"
  let ?B = "setitem (purchase_frame [4, 5]) ''Click'' (Num 8)"
  let ?DF = "pd_concat (setitem ?A ''Group'' (Str ''C'')) (setitem ?B ''Group'' (Str ''T''))"
  have len_ix: "length (rows df) = length (rows dfc) + length (rows dft) \<and>
      index df = [0 ..< length (rows dfc) + length (rows dft)]"
    if "combined dfc dft = Inr df" for dfc dft df
    using combined_keeps_rows_in_order[OF that] by blast
  have from_c: "(rows df ! i) c = (rows dfc ! i) c"
    if "combined dfc dft = Inr df" "i < length (rows dfc)" "c \<noteq> ''Purchase'' \<and> c \<noteq> ''Group''"
    for dfc dft df i c
    using combined_keeps_rows_in_order[OF that(1)] that(2,3) by blast
  have from_t: "(rows df ! (length (rows dfc) + j)) c = (rows dft ! j) c"
    if "combined dfc dft = Inr df" "j < length (rows dft)" "c \<noteq> ''Purchase'' \<and> c \<noteq> ''Group''"
    for dfc dft df j c
    using combined_keeps_rows_in_order[OF that(1)] that(2,3) by blast
  have la: "(2 :: nat) < length (rows ?A)" by (simp add: setitem_def purchase_frame_def)
  have lb: "(1 :: nat) < length (rows ?B)" by (simp add: setitem_def purchase_frame_def)
  have ne: "''Click'' \<noteq> ''Purchase'' \<and> ''Click'' \<noteq> ''Group''" by simp
  have len: "length (rows ?DF) = 5"
    using len_ix[OF run] by (simp add: setitem_def purchase_frame_def)
  have ix: "index ?DF = [0, 1, 2, 3, 4]"
    using len_ix[OF run] by (simp add: setitem_def purchase_frame_def upt_rec)
  have ra: "(rows ?DF ! 2) ''Click'' = (rows ?A ! 2) ''Click''"
    by (rule from_c[OF run la ne])
  have rb: "(rows ?DF ! (length (rows ?A) + 1)) ''Click'' = (rows ?B ! 1) ''Click''"
    by (rule from_t[OF run lb ne])
  show ?thesis
    by (intro conjI) (fact run len ix la ra lb rb ne[THEN conjunct1] ne[THEN conjunct2])+
qed

text \<open>
  C6. In the combined data frame every row that came from Control has the Group label
  \<open>C\<close> and every row that came from Test has the Group label \<open>T\<close>; no row has
  another label or none.
\<close>

theorem combined_group_labels:
  assumes "combined dfc dft = Inr df"
  shows "(\<forall>i < length (rows dfc). (rows df ! i) ''Group'' = Some (Str ''C'')) \<and>
         (\<forall>j < length (rows dft).
            (rows df ! (length (rows dfc) + j)) ''Group'' = Some (Str ''T'')) \<and>
         (\<forall>r \<in> set (rows df). r ''Group'' = Some (Str ''C'') \<or> r ''Group'' = Some (Str ''T''))"
proof -
  from combined_Inr[OF assms] obtain dfc1 dft1 :: dataframe where
    lc: "length (rows dfc1) = length (rows dfc)" and lt: "length (rows dft1) = length (rows dft)" and
    rs: "rows df = map (\<lambda>r. r(''Group'' \<mapsto> Str ''C'')) (rows dfc1) @
                   map (\<lambda>r. r(''Group'' \<mapsto> Str ''T'')) (rows dft1)"
    by blast
  have 1: "\<forall>i < length (rows dfc). (rows df ! i) ''Group'' = Some (Str ''C'')"
    by (simp add: rs nth_append lc)
  have 2: "\<forall>j < length (rows dft). (rows df ! (length (rows dfc) + j)) ''Group'' = Some (Str ''T'')"
    by (simp add: rs nth_append lc lt)
  have 3: "\<forall>r \<in> set (rows df). r ''Group'' = Some (Str ''C'') \<or> r ''Group'' = Some (Str ''T'')"
    by (auto simp: rs)
  from 1 2 3 show ?thesis by blast
qed

theorem combined_group_labels_witness:
  "combined (purchase_frame [10, 20]) (purchase_frame [30, 40, 50])
     = Inr (pd_concat (setitem (purchase_frame [10, 20]) ''Group'' (Str ''C''))
                      (setitem (purchase_frame [30, 40, 50]) ''Group'' (Str ''T''))) \<and>
   (1 :: nat) < length (rows (purchase_frame [10, 20])) \<and>
   (rows (pd_concat (setitem (purchase_frame [10, 20]) ''Group'' (Str ''C''))
                    (setitem (purchase_frame [30, 40, 50]) ''Group'' (Str ''T''))) ! 1) ''Group''
     = Some (Str ''C'') \<and>
   (2 :: nat) < length (rows (purchase_frame [30, 40, 50])) \<and>
   (rows (pd_concat (setitem (purchase_frame [10, 20]) ''Group'' (Str ''C''))
                    (setitem (purchase_frame [30, 40, 50]) ''Group'' (Str ''T'')))
      ! (length (rows (purchase_frame [10, 20])) + 2)) ''Group''
     = Some (Str ''T'') \<and>
   [''Purchase'' \<mapsto> Num 40, ''Group'' \<mapsto> Str ''T'']
     \<in> set (rows (pd_concat (setitem (purchase_frame [10, 20]) ''Group'' (Str ''C''))
                            (setitem (purchase_frame [30, 40, 50]) ''Group'' (Str ''T'')))) \<and>
   [''Purchase'' \<mapsto> Num 40, ''Group'' \<mapsto> Str ''T''] ''Group'' = Some (Str ''T'')"
proof -
  have run: "combined (purchase_frame [10, 20]) (purchase_frame [30, 40, 50])
     = Inr (pd_concat (setitem (purchase_frame [10, 20]) ''Group'' (Str ''C''))
                      (setitem (purchase_frame [30, 40, 50]) ''Group'' (Str ''T'')))"
    apply (simp add: combined_def)
    apply (subst replace_with_thresholds_sorted_frame, simp, simp)
    apply (subst replace_with_thresholds_sorted_frame, simp, simp)
    apply (simp add: interpolate_eval nth_Cons')
    done
  have mem: "[''Purchase'' \<mapsto> Num 40, ''Group'' \<mapsto> Str ''T'']
     \<in> set (rows (pd_concat (setitem (purchase_frame [10, 20]) ''Group'' (Str ''C''))
                            (setitem (purchase_frame [30, 40, 50]) ''Group'' (Str ''T''))))"
    by (simp add: pd_concat_def setitem_def purchase_frame_def)
  let ?A = "purchase_frame [10, 20]"
  let ?B = "purchase_frame [30, 40, 50]"
  let ?DF = "pd_concat (setitem ?A ''Group'' (Str ''C'')) (setitem ?B ''Group'' (Str ''T''))"
  note inst = combined_group_labels[OF run]
  have la: "(1 :: nat) < length (rows ?A)" by (simp add: purchase_frame_def)
  have lb: "(2 :: nat) < length (rows ?B)" by (simp add: purchase_frame_def)
  have ra: "(rows ?DF ! 1) ''Group'' = Some (Str ''C'')" using inst la by blast
  have rb: "(rows ?DF ! (length (rows ?A) + 2)) ''Group'' = Some (Str ''T'')"
    using inst lb by blast
  have "[''Purchase'' \<mapsto> Num 40, ''Group'' \<mapsto> Str ''T''] ''Group'' = Some (Str ''C'') \<or>
        [''Purchase'' \<mapsto> Num 40, ''Group'' \<mapsto> Str ''T''] ''Group'' = Some (Str ''T'')"
    using inst mem by blast
  then have lab: "[''Purchase'' \<mapsto> Num 40, ''Group'' \<mapsto> Str ''T''] ''Group'' = Some (Str ''T'')"
    by simp
  show ?thesis using run la ra lb rb mem lab by blast
qed

end
